theory Spec2Isabelle
  imports Complex_Main
begin

section \<open>Python exceptions\<close>

text \<open>
  Every exception the modelled code can raise is a value. The constructor is the Python
  exception class; where the source formats a message from data, the data is the payload.
\<close>

datatype error =
    ValueError string
  | UnknownMetric string
  | MissingColumns string "string list"
  | AttributeError string string
  | KeyError string
  | TypeError string
  | IndexError string
  | StrategyError string

section \<open>The genetic strategy (experimental\_algorithms/genetic\_strategy.py)\<close>

subsection \<open>What the source leaves to the random and numpy modules\<close>

text \<open>
  \<open>random.random()\<close>, \<open>random.sample\<close>, \<open>random.choice\<close> and \<open>np.argsort\<close> are library
  calls. The generator state is an abstract value \<open>'g\<close> threaded through every call; the
  library's choices are the fields of a record. \<open>random_sample_positions n k g\<close> are the
  positions \<open>random.sample\<close> picks among \<open>n\<close> elements, \<open>random_choice_position n g\<close> the
  position \<open>random.choice\<close> picks, \<open>np_argsort xs\<close> the index array numpy returns.
\<close>

record 'g runtime =
  random_random :: "'g \<Rightarrow> real \<times> 'g"
  random_sample_positions :: "nat \<Rightarrow> nat \<Rightarrow> 'g \<Rightarrow> nat list \<times> 'g"
  random_choice_position :: "nat \<Rightarrow> 'g \<Rightarrow> nat \<times> 'g"
  np_argsort :: "real list \<Rightarrow> nat list"

text \<open>
  The contract of \<open>random.sample\<close>: \<open>k\<close> positions, pairwise distinct, inside the
  population. The contract of \<open>random.choice\<close>: a position inside a non-empty sequence.
\<close>

definition sample_ok :: "'g runtime \<Rightarrow> bool" where
  "sample_ok rt =
     (\<forall>n k g. k \<le> n \<longrightarrow>
        (case random_sample_positions rt n k g of
           (idxs, g') \<Rightarrow> length idxs = k \<and> distinct idxs \<and> (\<forall>i\<in>set idxs. i < n)))"

definition choice_ok :: "'g runtime \<Rightarrow> bool" where
  "choice_ok rt = (\<forall>n g. 0 < n \<longrightarrow> fst (random_choice_position rt n g) < n)"

text \<open>
  The contract of \<open>np.argsort\<close> on one array: a permutation of the positions that lists
  the values in ascending order. numpy's default sort kind is not stable, so the order of
  equal values is not part of the contract.
\<close>

definition argsort_ok :: "'g runtime \<Rightarrow> real list \<Rightarrow> bool" where
  "argsort_ok rt xs =
     (length (np_argsort rt xs) = length xs \<and> distinct (np_argsort rt xs) \<and>
      set (np_argsort rt xs) = {..<length xs} \<and>
      sorted (map (\<lambda>i. xs ! i) (np_argsort rt xs)))"

subsection \<open>Individuals, references and the subclass hooks\<close>

text \<open>
  An individual is a Python object, and the population is a list of references to such
  objects: the elitism loop appends \<open>self.population[...]\<close> itself, and
  \<open>random.choice(self.population)\<close> returns a member of the population, not a copy of it.
  The objects live in a store, the list \<open>objects\<close>; a reference is a position in it.
  Creating an individual appends to the store, changing one in place overwrites its cell.

  \<open>initialize_population\<close>, \<open>evaluate_fitness\<close>, \<open>crossover\<close> and \<open>mutate\<close> raise
  NotImplementedError in GeneticStrategy itself: a subclass supplies them. They are
  parameters here. \<open>crossover\<close> and \<open>mutate\<close> are given the store and references into it,
  and return the reference of the child with the store as they leave it, so that they can
  build a new individual or change the one they were handed; the ones that may draw random
  numbers thread the generator state. \<open>evaluate_fitness\<close> is a function of the
  individual's value alone (the same value at every call) and its values are real numbers.
\<close>

record ('a, 'g) hooks =
  initialize_population :: "'g \<Rightarrow> (nat list \<times> 'a list) \<times> 'g"
  evaluate_fitness :: "'a \<Rightarrow> real"
  crossover :: "'a list \<Rightarrow> nat \<Rightarrow> nat \<Rightarrow> 'g \<Rightarrow> (nat \<times> 'a list) \<times> 'g"
  mutate :: "'a list \<Rightarrow> nat \<Rightarrow> 'g \<Rightarrow> (nat \<times> 'a list) \<times> 'g"

text \<open>\<open>self.evaluate_fitness(x)\<close> for a reference \<open>x\<close>: the fitness of the object it points to.\<close>

definition fitness_at :: "('a, 'g) hooks \<Rightarrow> 'a list \<Rightarrow> nat \<Rightarrow> real" where
  "fitness_at h store r = evaluate_fitness h (store ! r)"

text \<open>
  Hooks that build new individuals and leave every existing one as it is: the store only
  grows.
\<close>

definition leaves_individuals :: "('a, 'g) hooks \<Rightarrow> bool" where
  "leaves_individuals h =
     ((\<forall>store a b g. case crossover h store a b g of
          ((c, store'), g') \<Rightarrow> take (length store) store' = store)
      \<and> (\<forall>store a g. case mutate h store a g of
          ((c, store'), g') \<Rightarrow> take (length store) store' = store))"

subsection \<open>The object\<close>

text \<open>
  The attributes \<open>__init__\<close> sets and \<open>evolve\<close> reads or writes, and the body of
  \<open>__init__\<close> as an instance of a concrete subclass runs it. \<open>population\<close> and
  \<open>best_individual\<close> hold references; \<open>objects\<close> is the store they point into. The
  \<open>operators\<close> list, and the \<open>data\<close> and \<open>performance_metrics\<close> of the base class, are
  never read by the genetic engine and are left out of this record.
\<close>

record 'a genetic_strategy =
  symbol :: string
  population_size :: int
  generations :: int
  mutation_rate :: real
  crossover_rate :: real
  elite_size :: int
  best_individual :: "nat option"
  population :: "nat list"
  fitness_history :: "real list"
  objects :: "'a list"

definition GeneticStrategy_init ::
  "string \<Rightarrow> int \<Rightarrow> int \<Rightarrow> real \<Rightarrow> real \<Rightarrow> int \<Rightarrow> 'a genetic_strategy" where
  "GeneticStrategy_init symb psize gens mrate crate esize =
     \<lparr> symbol = symb, population_size = psize, generations = gens,
       mutation_rate = mrate, crossover_rate = crate, elite_size = esize,
       best_individual = None, population = [], fitness_history = [], objects = [] \<rparr>"

subsection \<open>select\_parents\<close>

definition tournament_size :: nat where
  "tournament_size = 3"

text \<open>\<open>random.sample(population, k)\<close>: ValueError when \<open>k\<close> exceeds the population.\<close>

definition random_sample ::
  "'g runtime \<Rightarrow> 'a list \<Rightarrow> nat \<Rightarrow> 'g \<Rightarrow> error + ('a list \<times> 'g)" where
  "random_sample rt pop k g =
     (if length pop < k then Inl (ValueError ''Sample larger than population or is negative'')
      else (case random_sample_positions rt (length pop) k g of
              (idxs, g') \<Rightarrow> Inr (map (\<lambda>i. pop ! i) idxs, g')))"

text \<open>\<open>max(xs, key=f)\<close>: the first element with the largest key; ValueError on \<open>[]\<close>.\<close>

definition max_key :: "('a \<Rightarrow> real) \<Rightarrow> 'a list \<Rightarrow> error + 'a" where
  "max_key f xs =
     (case xs of
        [] \<Rightarrow> Inl (ValueError ''max() arg is an empty sequence'')
      | x # rest \<Rightarrow> Inr (fold (\<lambda>y m. if f m < f y then y else m) rest x))"

text \<open>The loop \<open>for _ in range(2)\<close> of select\_parents, counting the rounds left.\<close>

fun select_parents_loop ::
  "'g runtime \<Rightarrow> ('a \<Rightarrow> real) \<Rightarrow> 'a list \<Rightarrow> nat \<Rightarrow> 'a list \<Rightarrow> 'g \<Rightarrow> error + ('a list \<times> 'g)" where
  "select_parents_loop rt f pop 0 parents g = Inr (parents, g)"
| "select_parents_loop rt f pop (Suc n) parents g =
     (case random_sample rt pop tournament_size g of
        Inl e \<Rightarrow> Inl e
      | Inr (tournament, g') \<Rightarrow>
          (case max_key f tournament of
             Inl e \<Rightarrow> Inl e
           | Inr winner \<Rightarrow> select_parents_loop rt f pop n (parents @ [winner]) g'))"

definition select_parents ::
  "'g runtime \<Rightarrow> ('a \<Rightarrow> real) \<Rightarrow> 'a list \<Rightarrow> 'g \<Rightarrow> error + ('a list \<times> 'g)" where
  "select_parents rt f pop g = select_parents_loop rt f pop 2 [] g"

subsection \<open>evolve\<close>

text \<open>\<open>np.argmax\<close>: the first position of the largest value; ValueError on an empty array.\<close>

fun argmax_loop :: "real list \<Rightarrow> nat \<Rightarrow> nat \<Rightarrow> real \<Rightarrow> nat" where
  "argmax_loop [] i best_i best = best_i"
| "argmax_loop (x # xs) i best_i best =
     (if best < x then argmax_loop xs (Suc i) i x else argmax_loop xs (Suc i) best_i best)"

definition np_argmax :: "real list \<Rightarrow> error + nat" where
  "np_argmax xs =
     (case xs of
        [] \<Rightarrow> Inl (ValueError ''attempt to get argmax of an empty sequence'')
      | x # rest \<Rightarrow> Inr (argmax_loop rest 1 0 x))"

definition np_mean :: "real list \<Rightarrow> real" where
  "np_mean xs = sum_list xs / real (length xs)"

text \<open>
  The elitism loop \<open>for i in range(self.elite_size)\<close>: \<open>sorted_indices[i]\<close> and
  \<open>self.population[...]\<close> raise IndexError out of range.
\<close>

fun elitism_loop :: "'a list \<Rightarrow> nat list \<Rightarrow> nat list \<Rightarrow> 'a list \<Rightarrow> error + 'a list" where
  "elitism_loop pop sorted_indices [] new_population = Inr new_population"
| "elitism_loop pop sorted_indices (i # rest) new_population =
     (if length sorted_indices \<le> i then Inl (IndexError ''index out of bounds'')
      else if length pop \<le> sorted_indices ! i then Inl (IndexError ''list index out of range'')
      else elitism_loop pop sorted_indices rest (new_population @ [pop ! (sorted_indices ! i)]))"

text \<open>\<open>random.choice(population)\<close>: IndexError on an empty population.\<close>

definition random_choice :: "'g runtime \<Rightarrow> 'a list \<Rightarrow> 'g \<Rightarrow> error + ('a \<times> 'g)" where
  "random_choice rt pop g =
     (if pop = [] then Inl (IndexError ''Cannot choose from an empty sequence'')
      else (case random_choice_position rt (length pop) g of (i, g') \<Rightarrow> Inr (pop ! i, g')))"

text \<open>
  One pass of the body of the \<open>while\<close> loop: the reference of the child that is
  appended, and the store after \<open>crossover\<close> and \<open>mutate\<close> have run.
\<close>

definition make_child ::
  "'g runtime \<Rightarrow> ('a, 'g) hooks \<Rightarrow> 'a genetic_strategy \<Rightarrow> 'g \<Rightarrow>
   error + ((nat \<times> 'a list) \<times> 'g)" where
  "make_child rt h self g =
     (case random_random rt g of
        (r1, g1) \<Rightarrow>
          (case (if r1 < crossover_rate self
                 then (case select_parents rt (fitness_at h (objects self)) (population self) g1 of
                         Inl e \<Rightarrow> Inl e
                       | Inr (parents, g2) \<Rightarrow>
                           Inr (crossover h (objects self) (parents ! 0) (parents ! 1) g2))
                 else (case random_choice rt (population self) g1 of
                         Inl e \<Rightarrow> Inl e
                       | Inr (child, g2) \<Rightarrow> Inr ((child, objects self), g2))) of
             Inl e \<Rightarrow> Inl e
           | Inr ((child, store), g3) \<Rightarrow>
               (case random_random rt g3 of
                  (r2, g4) \<Rightarrow>
                    if r2 < mutation_rate self then Inr (mutate h store child g4)
                    else Inr ((child, store), g4))))"

text \<open>
  The loop \<open>while len(new_population) < self.population_size\<close>. The store of the object
  is the one the last child left.
\<close>

function fill_loop ::
  "'g runtime \<Rightarrow> ('a, 'g) hooks \<Rightarrow> 'a genetic_strategy \<Rightarrow> nat list \<Rightarrow> 'g \<Rightarrow>
   error + ((nat list \<times> 'a list) \<times> 'g)" where
  "fill_loop rt h self new_population g =
     (if int (length new_population) < population_size self
      then (case make_child rt h self g of
              Inl e \<Rightarrow> Inl e
            | Inr ((child, store), g') \<Rightarrow>
                fill_loop rt h (self\<lparr>objects := store\<rparr>) (new_population @ [child]) g')
      else Inr ((new_population, objects self), g))"
  by pat_completeness auto
termination
  by (relation "measure (\<lambda>(rt, h, self, new_population, g).
        nat (population_size self - int (length new_population)))") auto

text \<open>The body of the loop \<open>for generation in range(self.generations)\<close>.\<close>

definition generation_step ::
  "'g runtime \<Rightarrow> ('a, 'g) hooks \<Rightarrow> 'a genetic_strategy \<Rightarrow> 'g \<Rightarrow>
   error + ('a genetic_strategy \<times> 'g)" where
  "generation_step rt h self g =
     (let fitness_scores = map (fitness_at h (objects self)) (population self) in
      case np_argmax fitness_scores of
        Inl e \<Rightarrow> Inl e
      | Inr best_idx \<Rightarrow>
          let best = (case best_individual self of
                        None \<Rightarrow> Some (population self ! best_idx)
                      | Some b \<Rightarrow>
                          if fitness_at h (objects self) b < fitness_scores ! best_idx
                          then Some (population self ! best_idx) else Some b);
              history = fitness_history self @ [np_mean fitness_scores];
              sorted_indices = rev (np_argsort rt fitness_scores)
          in case elitism_loop (population self) sorted_indices
                    [0..<nat (elite_size self)] [] of
               Inl e \<Rightarrow> Inl e
             | Inr elites \<Rightarrow>
                 (case fill_loop rt h self elites g of
                    Inl e \<Rightarrow> Inl e
                  | Inr ((new_population, store), g') \<Rightarrow>
                      Inr (self\<lparr> best_individual := best, fitness_history := history,
                                population := new_population, objects := store \<rparr>, g')))"



text \<open>
  The positions the elitism loop reads: \<open>sorted_indices[0], ..., sorted_indices[elite_size - 1]\<close>
  with \<open>sorted_indices = np.argsort(fitness_scores)[::-1]\<close>.
\<close>

definition elite_positions :: "'g runtime \<Rightarrow> ('a, 'g) hooks \<Rightarrow> 'a genetic_strategy \<Rightarrow> nat list" where
  "elite_positions rt h self =
     take (nat (elite_size self))
       (rev (np_argsort rt (map (fitness_at h (objects self)) (population self))))"

subsection \<open>A deterministic runtime and a concrete subclass\<close>

text \<open>
  A stable argsort (insertion sort on the positions, keyed by the value): what numpy
  returns on the short arrays used below, where its sort is an insertion sort.
\<close>

definition stable_argsort :: "real list \<Rightarrow> nat list" where
  "stable_argsort xs = sort_key (\<lambda>i. xs ! i) [0..<length xs]"

text \<open>
  A runtime whose generator state is a counter: \<open>random()\<close> cycles through
  0, 1/4, 1/2, 3/4, \<open>sample\<close> takes the first \<open>k\<close> positions, \<open>choice\<close> takes the
  position \<open>g mod n\<close>.
\<close>

definition counter_runtime :: "nat runtime" where
  "counter_runtime =
     \<lparr> random_random = (\<lambda>g. (real (g mod 4) / 4, Suc g)),
       random_sample_positions = (\<lambda>n k g. ([0..<k], Suc g)),
       random_choice_position = (\<lambda>n g. (g mod n, Suc g)),
       np_argsort = stable_argsort \<rparr>"

text \<open>
  A subclass over real-valued individuals with fitness \<open>-(x - 3)\<^sup>2\<close>. Crossover builds
  the mean of the parents and mutation builds the individual plus one, both as new
  objects; the initial population is 1, 2, 3, 4.
\<close>

definition parabola_hooks :: "(real, nat) hooks" where
  "parabola_hooks =
     \<lparr> initialize_population = (\<lambda>g. (([0, 1, 2, 3], [1, 2, 3, 4]), g)),
       evaluate_fitness = (\<lambda>x. - ((x - 3) * (x - 3))),
       crossover = (\<lambda>store a b g. ((length store, store @ [(store ! a + store ! b) / 2]), g)),
       mutate = (\<lambda>store a g. ((length store, store @ [store ! a + 1]), g)) \<rparr>"

text \<open>
  The same subclass with a \<open>mutate\<close> that adds one to the individual it is handed, in
  place, and returns it.
\<close>

definition in_place_hooks :: "(real, nat) hooks" where
  "in_place_hooks =
     \<lparr> initialize_population = (\<lambda>g. (([0, 1], [3, 1]), g)),
       evaluate_fitness = (\<lambda>x. - ((x - 3) * (x - 3))),
       crossover = (\<lambda>store a b g. ((length store, store @ [(store ! a + store ! b) / 2]), g)),
       mutate = (\<lambda>store a g. ((a, store[a := store ! a + 1]), g)) \<rparr>"

text \<open>A subclass over named individuals that all have the same fitness.\<close>

definition flat_hooks :: "(string, nat) hooks" where
  "flat_hooks =
     \<lparr> initialize_population = (\<lambda>g. (([0, 1], [''a'', ''b'']), g)),
       evaluate_fitness = (\<lambda>x. 1),
       crossover = (\<lambda>store a b g. ((a, store), g)),
       mutate = (\<lambda>store a g. ((a, store), g)) \<rparr>"

text \<open>
  Objects in the state \<open>evolve\<close> sees at the start of a generation: four individuals with
  two elites; two equally fit individuals \<open>a\<close>, \<open>b\<close> that are both elites; a population of
  two with one elite; four individuals with a population size of 2 and an elite size of 3;
  and the individuals 3 and 1 with one elite and a mutation rate of one half.
\<close>

definition parabola_strategy :: "real genetic_strategy" where
  "parabola_strategy =
     (GeneticStrategy_init ''TEST'' 4 3 (1 / 10) (7 / 10) 2)
       \<lparr>population := [0, 1, 2, 3], objects := [1, 2, 3, 4]\<rparr>"

definition flat_strategy :: "string genetic_strategy" where
  "flat_strategy =
     (GeneticStrategy_init ''TEST'' 2 1 (1 / 10) (7 / 10) 2)
       \<lparr>population := [0, 1], objects := [''a'', ''b'']\<rparr>"

definition small_strategy :: "real genetic_strategy" where
  "small_strategy =
     (GeneticStrategy_init ''TEST'' 2 1 (1 / 10) (7 / 10) 1)
       \<lparr>population := [0, 1], objects := [1, 2]\<rparr>"


definition in_place_strategy :: "real genetic_strategy" where
  "in_place_strategy =
     (GeneticStrategy_init ''TEST'' 2 1 (1 / 2) (7 / 10) 1)
       \<lparr>population := [0, 1], objects := [3, 1]\<rparr>"

subsection \<open>get\_parameters and set\_parameters\<close>

text \<open>
  \<open>set_parameters\<close> goes through \<open>hasattr\<close> and \<open>setattr\<close>, so it sees the object as
  Python does: a dictionary from attribute names to values of any type, next to the names
  the classes define. The values are dynamically typed.
\<close>

datatype pyval = PNone | PBool bool | PInt int | PFloat real | PStr string | PList "pyval list"

type_synonym attributes = "string \<rightharpoonup> pyval"

text \<open>
  The instance dictionary \<open>__init__\<close> leaves (BaseStrategy's \<open>__init__\<close> first). The empty
  \<open>performance_metrics\<close> dictionary is written as an empty list.
\<close>

definition GeneticStrategy_init_attributes ::
  "string \<Rightarrow> int \<Rightarrow> int \<Rightarrow> real \<Rightarrow> real \<Rightarrow> int \<Rightarrow> attributes" where
  "GeneticStrategy_init_attributes symb psize gens mrate crate esize =
     [''symbol'' \<mapsto> PStr symb, ''data'' \<mapsto> PNone, ''performance_metrics'' \<mapsto> PList [],
      ''population_size'' \<mapsto> PInt psize, ''generations'' \<mapsto> PInt gens,
      ''mutation_rate'' \<mapsto> PFloat mrate, ''crossover_rate'' \<mapsto> PFloat crate,
      ''elite_size'' \<mapsto> PInt esize, ''operators'' \<mapsto> PList [],
      ''best_individual'' \<mapsto> PNone, ''population'' \<mapsto> PList [],
      ''fitness_history'' \<mapsto> PList []]"

text \<open>
  Attribute lookup also finds the names the classes define. The methods of
  GeneticStrategy and BaseStrategy (a concrete subclass overrides some of them) are
  listed; they are ordinary functions, so that \<open>setattr\<close> on such a name stores the value
  in the instance dictionary.
\<close>

definition class_attributes :: "string list" where
  "class_attributes =
     [''add_operator'', ''initialize_population'', ''evaluate_fitness'', ''select_parents'',
      ''crossover'', ''mutate'', ''evolve'', ''plot_fitness_history'', ''run_strategy'',
      ''get_parameters'', ''set_parameters'', ''plot_strategy'', ''calculate_metrics'',
      ''get_metrics_by_category'', ''get_optimization_bounds'']"

text \<open>
  Every Python object also has names that start with an underscore (\<open>__class__\<close>,
  \<open>__dict__\<close>, \<open>__doc__\<close>, \<open>__init__\<close>, \<open>_abc_impl\<close> and the like), and assigning to some
  of them does not store an attribute: \<open>__dict__\<close> replaces the whole instance dictionary,
  and \<open>__class__\<close> raises TypeError unless it is given a compatible class. What the
  interpreter does on these names is a parameter: \<open>inherited_hasattr\<close> and
  \<open>inherited_setattr\<close> are \<open>hasattr\<close> and \<open>setattr\<close> on a name that starts with an
  underscore.
\<close>

record object_protocol =
  inherited_hasattr :: "attributes \<Rightarrow> string \<Rightarrow> bool"
  inherited_setattr :: "attributes \<Rightarrow> string \<Rightarrow> pyval \<Rightarrow> error + attributes"

definition plain_name :: "string \<Rightarrow> bool" where
  "plain_name key = (case key of [] \<Rightarrow> True | c # rest \<Rightarrow> c \<noteq> CHR ''_'')"

definition hasattr :: "object_protocol \<Rightarrow> attributes \<Rightarrow> string \<Rightarrow> bool" where
  "hasattr py self key =
     (if plain_name key then self key \<noteq> None \<or> key \<in> set class_attributes
      else inherited_hasattr py self key)"

definition setattr ::
  "object_protocol \<Rightarrow> attributes \<Rightarrow> string \<Rightarrow> pyval \<Rightarrow> error + attributes" where
  "setattr py self key v =
     (if plain_name key then Inr (self(key \<mapsto> v)) else inherited_setattr py self key v)"

text \<open>
  \<open>for key, value in parameters.items(): if hasattr(self, key): setattr(self, key, value)\<close>.
  The dictionary \<open>parameters\<close> is the list of its items in iteration order. An exception
  of \<open>setattr\<close> ends the loop.
\<close>

fun set_parameters ::
  "object_protocol \<Rightarrow> attributes \<Rightarrow> (string \<times> pyval) list \<Rightarrow> error + attributes" where
  "set_parameters py self [] = Inr self"
| "set_parameters py self ((key, v) # rest) =
     (if hasattr py self key
      then (case setattr py self key v of
              Inl e \<Rightarrow> Inl e
            | Inr self' \<Rightarrow> set_parameters py self' rest)
      else set_parameters py self rest)"

text \<open>
  \<open>get_parameters\<close>: the dictionary of the five configuration attributes, read in the
  order of the dictionary display; AttributeError at the first one that is gone.
\<close>

fun read_attributes :: "attributes \<Rightarrow> string list \<Rightarrow> error + (string \<times> pyval) list" where
  "read_attributes self [] = Inr []"
| "read_attributes self (name # rest) =
     (case self name of
        None \<Rightarrow> Inl (AttributeError ''GeneticStrategy'' name)
      | Some v \<Rightarrow>
          (case read_attributes self rest of
             Inl e \<Rightarrow> Inl e
           | Inr items \<Rightarrow> Inr ((name, v) # items)))"

definition get_parameters :: "attributes \<Rightarrow> error + (string \<times> pyval) list" where
  "get_parameters self =
     read_attributes self
       [''population_size'', ''generations'', ''mutation_rate'', ''crossover_rate'',
        ''elite_size'']"

section \<open>Metrics (strategies/metrics.py)\<close>

subsection \<open>Floating-point values\<close>

text \<open>
  A Python float is a finite number, an infinity or NaN. Finite arithmetic is exact here:
  no rounding, no overflow, no negative zero. The special cases follow IEEE 754, which is
  what numpy computes: a division by zero gives an infinity or NaN and raises nothing, and
  every comparison with NaN is false.
\<close>

datatype pyfloat = Fin real | PInf | NInf | NaN

fun fneg :: "pyfloat \<Rightarrow> pyfloat" where
  "fneg (Fin a) = Fin (- a)"
| "fneg PInf = NInf"
| "fneg NInf = PInf"
| "fneg NaN = NaN"

fun fabs :: "pyfloat \<Rightarrow> pyfloat" where
  "fabs (Fin a) = Fin \<bar>a\<bar>"
| "fabs PInf = PInf"
| "fabs NInf = PInf"
| "fabs NaN = NaN"

fun fadd :: "pyfloat \<Rightarrow> pyfloat \<Rightarrow> pyfloat" where
  "fadd (Fin a) (Fin b) = Fin (a + b)"
| "fadd NaN y = NaN"
| "fadd x NaN = NaN"
| "fadd PInf NInf = NaN"
| "fadd NInf PInf = NaN"
| "fadd PInf y = PInf"
| "fadd x PInf = PInf"
| "fadd NInf y = NInf"
| "fadd x NInf = NInf"

definition fsub :: "pyfloat \<Rightarrow> pyfloat \<Rightarrow> pyfloat" where
  "fsub x y = fadd x (fneg y)"

fun fmul :: "pyfloat \<Rightarrow> pyfloat \<Rightarrow> pyfloat" where
  "fmul (Fin a) (Fin b) = Fin (a * b)"
| "fmul NaN y = NaN"
| "fmul x NaN = NaN"
| "fmul (Fin a) PInf = (if 0 < a then PInf else if a < 0 then NInf else NaN)"
| "fmul (Fin a) NInf = (if 0 < a then NInf else if a < 0 then PInf else NaN)"
| "fmul PInf (Fin b) = (if 0 < b then PInf else if b < 0 then NInf else NaN)"
| "fmul NInf (Fin b) = (if 0 < b then NInf else if b < 0 then PInf else NaN)"
| "fmul PInf PInf = PInf"
| "fmul PInf NInf = NInf"
| "fmul NInf PInf = NInf"
| "fmul NInf NInf = PInf"

fun fdiv :: "pyfloat \<Rightarrow> pyfloat \<Rightarrow> pyfloat" where
  "fdiv (Fin a) (Fin b) =
     (if b \<noteq> 0 then Fin (a / b) else if 0 < a then PInf else if a < 0 then NInf else NaN)"
| "fdiv NaN y = NaN"
| "fdiv x NaN = NaN"
| "fdiv (Fin a) PInf = Fin 0"
| "fdiv (Fin a) NInf = Fin 0"
| "fdiv PInf (Fin b) = (if 0 \<le> b then PInf else NInf)"
| "fdiv NInf (Fin b) = (if 0 \<le> b then NInf else PInf)"
| "fdiv x y = NaN"

fun flt :: "pyfloat \<Rightarrow> pyfloat \<Rightarrow> bool" where
  "flt (Fin a) (Fin b) = (a < b)"
| "flt NaN y = False"
| "flt x NaN = False"
| "flt NInf NInf = False"
| "flt NInf y = True"
| "flt PInf y = False"
| "flt (Fin a) PInf = True"
| "flt (Fin a) NInf = False"

definition fgt :: "pyfloat \<Rightarrow> pyfloat \<Rightarrow> bool" where
  "fgt x y = flt y x"

text \<open>\<open>x != y\<close> on floats: NaN differs from everything, itself included.\<close>

definition fne :: "pyfloat \<Rightarrow> pyfloat \<Rightarrow> bool" where
  "fne x y = (x = NaN \<or> y = NaN \<or> x \<noteq> y)"

subsection \<open>Series and data frames\<close>

text \<open>
  A pandas Series is the list of its values, a DataFrame the map from its column names to
  their Series. The reductions skip NaN, as pandas does by default.
\<close>

type_synonym series = "pyfloat list"

type_synonym dataframe = "string \<rightharpoonup> series"

definition dropna :: "series \<Rightarrow> series" where
  "dropna xs = filter (\<lambda>x. x \<noteq> NaN) xs"

text \<open>\<open>Series.sum()\<close>: 0 on an empty Series.\<close>

definition series_sum :: "series \<Rightarrow> pyfloat" where
  "series_sum xs = foldl fadd (Fin 0) (dropna xs)"

text \<open>\<open>Series.mean()\<close>: NaN when no value is left.\<close>

definition series_mean :: "series \<Rightarrow> pyfloat" where
  "series_mean xs =
     (if dropna xs = [] then NaN
      else fdiv (series_sum xs) (Fin (real (length (dropna xs)))))"

text \<open>\<open>Series.min()\<close>: NaN when no value is left.\<close>

definition series_min :: "series \<Rightarrow> pyfloat" where
  "series_min xs =
     (case dropna xs of
        [] \<Rightarrow> NaN
      | v # vs \<Rightarrow> fold (\<lambda>x m. if flt x m then x else m) vs v)"

text \<open>
  \<open>Series.std()\<close>: the sample standard deviation (one degree of freedom removed); NaN
  with fewer than two values or with an infinite one.
\<close>

fun finite_values :: "series \<Rightarrow> real list option" where
  "finite_values [] = Some []"
| "finite_values (Fin a # xs) = map_option (\<lambda>rs. a # rs) (finite_values xs)"
| "finite_values (x # xs) = None"

definition series_std :: "series \<Rightarrow> pyfloat" where
  "series_std xs =
     (if length (dropna xs) < 2 then NaN
      else (case finite_values (dropna xs) of
              None \<Rightarrow> NaN
            | Some rs \<Rightarrow>
                Fin (sqrt (sum_list (map (\<lambda>r. (r - sum_list rs / real (length rs)) ^ 2) rs)
                           / (real (length rs) - 1)))))"

text \<open>
  \<open>Series.cumprod()\<close>: the running product; a NaN entry stays NaN and is left out of the
  product.
\<close>

fun cumprod_from :: "pyfloat \<Rightarrow> series \<Rightarrow> series" where
  "cumprod_from acc [] = []"
| "cumprod_from acc (x # xs) =
     (if x = NaN then NaN # cumprod_from acc xs
      else fmul acc x # cumprod_from (fmul acc x) xs)"

definition cumprod :: "series \<Rightarrow> series" where
  "cumprod xs = cumprod_from (Fin 1) xs"

text \<open>
  \<open>Series.expanding().max()\<close>: the largest value seen so far, NaN entries skipped; NaN
  until a first value is seen.
\<close>

definition nanmax :: "pyfloat \<Rightarrow> pyfloat \<Rightarrow> pyfloat" where
  "nanmax m x = (if m = NaN then x else if x = NaN then m else if flt m x then x else m)"

fun expanding_max_from :: "pyfloat \<Rightarrow> series \<Rightarrow> series" where
  "expanding_max_from m [] = []"
| "expanding_max_from m (x # xs) = nanmax m x # expanding_max_from (nanmax m x) xs"

definition expanding_max :: "series \<Rightarrow> series" where
  "expanding_max xs = expanding_max_from NaN xs"

subsection \<open>The metric functions\<close>

text \<open>
  A metric function takes the data frame and returns a float or raises: \<open>df['returns']\<close>
  is a KeyError when the column is absent.
\<close>

definition calculate_sharpe_ratio :: "dataframe \<Rightarrow> error + pyfloat" where
  "calculate_sharpe_ratio df =
     (case df ''returns'' of
        None \<Rightarrow> Inl (KeyError ''returns'')
      | Some returns \<Rightarrow>
          if length returns < 2 then Inr (Fin 0)
          else Inr (fdiv (fmul (Fin (sqrt 252)) (series_mean returns)) (series_std returns)))"

definition calculate_sortino_ratio :: "dataframe \<Rightarrow> error + pyfloat" where
  "calculate_sortino_ratio df =
     (case df ''returns'' of
        None \<Rightarrow> Inl (KeyError ''returns'')
      | Some returns \<Rightarrow>
          if length returns < 2 then Inr (Fin 0)
          else let downside_returns = filter (\<lambda>x. flt x (Fin 0)) returns in
               if length downside_returns = 0 then Inr PInf
               else Inr (fdiv (fmul (Fin (sqrt 252)) (series_mean returns))
                              (series_std downside_returns)))"

definition cumulative_returns :: "series \<Rightarrow> series" where
  "cumulative_returns returns = cumprod (map (\<lambda>r. fadd (Fin 1) r) returns)"

definition calculate_max_drawdown :: "dataframe \<Rightarrow> error + pyfloat" where
  "calculate_max_drawdown df =
     (case df ''returns'' of
        None \<Rightarrow> Inl (KeyError ''returns'')
      | Some returns \<Rightarrow>
          let rolling_max = expanding_max (cumulative_returns returns);
              drawdowns = map (\<lambda>(c, m). fsub (fdiv c m) (Fin 1))
                              (zip (cumulative_returns returns) rolling_max)
          in Inr (fabs (series_min drawdowns)))"

definition calculate_win_rate :: "dataframe \<Rightarrow> error + pyfloat" where
  "calculate_win_rate df =
     (case df ''trade_returns'' of
        None \<Rightarrow> Inr (Fin 0)
      | Some trade_returns \<Rightarrow>
          if length trade_returns = 0 then Inr (Fin 0)
          else let winning_trades = length (filter (\<lambda>x. fgt x (Fin 0)) trade_returns);
                   total_trades = length (dropna trade_returns)
               in if 0 < total_trades
                  then Inr (Fin (real winning_trades / real total_trades))
                  else Inr (Fin 0))"

text \<open>
  The two sums of \<open>calculate_profit_factor\<close>:
  \<open>df['trade_returns'][df['trade_returns'] > 0].sum()\<close> and
  \<open>abs(df['trade_returns'][df['trade_returns'] < 0].sum())\<close>.
\<close>

definition gross_profit :: "series \<Rightarrow> pyfloat" where
  "gross_profit trade_returns = series_sum (filter (\<lambda>x. fgt x (Fin 0)) trade_returns)"

definition gross_loss :: "series \<Rightarrow> pyfloat" where
  "gross_loss trade_returns = fabs (series_sum (filter (\<lambda>x. flt x (Fin 0)) trade_returns))"

definition calculate_profit_factor :: "dataframe \<Rightarrow> error + pyfloat" where
  "calculate_profit_factor df =
     (case df ''trade_returns'' of
        None \<Rightarrow> Inr (Fin 0)
      | Some trade_returns \<Rightarrow>
          if length trade_returns = 0 then Inr (Fin 0)
          else let gains = gross_profit trade_returns;
                   losses = gross_loss trade_returns
               in Inr (if fne losses (Fin 0) then fdiv gains losses else PInf))"

definition calculate_average_trade :: "dataframe \<Rightarrow> error + pyfloat" where
  "calculate_average_trade df =
     (case df ''trade_returns'' of
        None \<Rightarrow> Inr (Fin 0)
      | Some trade_returns \<Rightarrow>
          if length trade_returns = 0 then Inr (Fin 0)
          else Inr (series_mean trade_returns))"

definition calculate_average_position_size :: "dataframe \<Rightarrow> error + pyfloat" where
  "calculate_average_position_size df =
     (case df ''position_size'' of
        None \<Rightarrow> Inr (Fin 0)
      | Some position_size \<Rightarrow> Inr (series_mean (map fabs position_size)))"

subsection \<open>What the specification says of the maximum drawdown\<close>

text \<open>
  In the words of the specification, over real numbers: the running peak of an expanding
  window is the largest value up to the position, the drawdown is
  \<open>(value - running peak) / running peak\<close>, the maximum drawdown the most negative
  drawdown, reported as a magnitude.
\<close>

definition running_peak :: "real list \<Rightarrow> nat \<Rightarrow> real" where
  "running_peak cs i = Max (set (take (Suc i) cs))"

definition spec_drawdowns :: "real list \<Rightarrow> real list" where
  "spec_drawdowns cs =
     map (\<lambda>i. (cs ! i - running_peak cs i) / running_peak cs i) [0..<length cs]"

definition spec_max_drawdown :: "real list \<Rightarrow> real" where
  "spec_max_drawdown cs = \<bar>Min (set (spec_drawdowns cs))\<bar>"

text \<open>
  The cumulative value series of a list of per-period returns: the value after period \<open>i\<close>
  is the product of \<open>1 + r\<close> over the returns up to \<open>i\<close>, the value before the first
  period being 1. The returns a record holds are its entries that are not missing; they
  are admissible when each is a finite number above \<open>-1\<close>, so that every value is positive.
\<close>

definition compound :: "real list \<Rightarrow> real list" where
  "compound rs = map (\<lambda>i. prod_list (map (\<lambda>r. 1 + r) (take (Suc i) rs))) [0..<length rs]"

fun observed_returns :: "series \<Rightarrow> real list" where
  "observed_returns [] = []"
| "observed_returns (Fin r # xs) = r # observed_returns xs"
| "observed_returns (x # xs) = observed_returns xs"

fun admissible_returns :: "series \<Rightarrow> bool" where
  "admissible_returns [] = True"
| "admissible_returns (Fin r # xs) = (- 1 < r \<and> admissible_returns xs)"
| "admissible_returns (NaN # xs) = admissible_returns xs"
| "admissible_returns (x # xs) = False"
subsection \<open>The registries\<close>

datatype MetricCategory = RETURNS | RISK | RATIOS | TRADES | POSITION

text \<open>
  A Metric is a dataclass instance. \<open>calculate_metrics\<close> reads its attributes by name, so
  the instance is modelled as Python sees it: the map from its attribute names to their
  values. A name that is not a field is an AttributeError.
\<close>

datatype attribute =
    AStr string
  | ABool "bool option"
  | ACategory MetricCategory
  | AColumns "string list"
  | AFunction "dataframe \<Rightarrow> error + pyfloat"

type_synonym pyobject = "string \<rightharpoonup> attribute"

definition Metric ::
  "string \<Rightarrow> string \<Rightarrow> MetricCategory \<Rightarrow> bool option \<Rightarrow> string list \<Rightarrow>
   (dataframe \<Rightarrow> error + pyfloat) \<Rightarrow> pyobject" where
  "Metric name description category higher_is_better requires_columns calculation_function =
     [''name'' \<mapsto> AStr name, ''description'' \<mapsto> AStr description,
      ''category'' \<mapsto> ACategory category, ''higher_is_better'' \<mapsto> ABool higher_is_better,
      ''requires_columns'' \<mapsto> AColumns requires_columns,
      ''calculation_function'' \<mapsto> AFunction calculation_function]"

definition getattr :: "string \<Rightarrow> pyobject \<Rightarrow> string \<Rightarrow> error + attribute" where
  "getattr class_name obj name =
     (case obj name of None \<Rightarrow> Inl (AttributeError class_name name) | Some a \<Rightarrow> Inr a)"

text \<open>The dictionary AVAILABLE\_METRICS, in the order of its entries.\<close>

definition AVAILABLE_METRICS :: "(string \<times> pyobject) list" where
  "AVAILABLE_METRICS =
     [(''sharpe_ratio'',
         Metric ''Sharpe Ratio'' ''Risk-adjusted return using standard deviation of returns''
           RATIOS (Some True) [''returns''] calculate_sharpe_ratio),
      (''sortino_ratio'',
         Metric ''Sortino Ratio'' ''Risk-adjusted return using downside deviation''
           RATIOS (Some True) [''returns''] calculate_sortino_ratio),
      (''max_drawdown'',
         Metric ''Maximum Drawdown'' ''Maximum peak to trough decline''
           RISK (Some False) [''returns''] calculate_max_drawdown),
      (''win_rate'',
         Metric ''Win Rate'' ''Percentage of winning trades''
           TRADES (Some True) [''trade_returns''] calculate_win_rate),
      (''profit_factor'',
         Metric ''Profit Factor'' ''Ratio of gross profits to gross losses''
           TRADES (Some True) [''trade_returns''] calculate_profit_factor),
      (''average_trade'',
         Metric ''Average Trade'' ''Average return per trade''
           TRADES (Some True) [''trade_returns''] calculate_average_trade),
      (''average_position_size'',
         Metric ''Average Position Size'' ''Average absolute position size''
           POSITION None [''position_size''] calculate_average_position_size)]"

record OptimizationObjective =
  objective_title :: string
  objective_description :: string
  higher_is_better :: bool
  metric_name :: string

definition OPTIMIZATION_OBJECTIVES :: "(string \<times> OptimizationObjective) list" where
  "OPTIMIZATION_OBJECTIVES =
     [(''sharpe_ratio'',
         \<lparr> objective_title = ''Maximize Sharpe Ratio'',
           objective_description = ''Optimize for risk-adjusted returns'',
           higher_is_better = True, metric_name = ''sharpe_ratio'' \<rparr>),
      (''sortino_ratio'',
         \<lparr> objective_title = ''Maximize Sortino Ratio'',
           objective_description = ''Optimize for downside risk-adjusted returns'',
           higher_is_better = True, metric_name = ''sortino_ratio'' \<rparr>),
      (''max_drawdown'',
         \<lparr> objective_title = ''Minimize Maximum Drawdown'',
           objective_description = ''Optimize for capital preservation'',
           higher_is_better = False, metric_name = ''max_drawdown'' \<rparr>),
      (''profit_factor'',
         \<lparr> objective_title = ''Maximize Profit Factor'',
           objective_description = ''Optimize for trade profitability'',
           higher_is_better = True, metric_name = ''profit_factor'' \<rparr>)]"

section \<open>The base strategy (strategies/base\_strategy.py)\<close>

text \<open>
  The two attributes of a strategy object that \<open>calculate_metrics\<close> reads and writes:
  \<open>data\<close> (None until the strategy has run) and the \<open>performance_metrics\<close> dictionary,
  in which a metric whose computation raised is stored as None.
\<close>

record strategy =
  data :: "dataframe option"
  performance_metrics :: "string \<rightharpoonup> pyfloat option"

text \<open>\<open>Series.shift(1)\<close> and the element-wise product of two columns of one frame.\<close>

definition shift1 :: "series \<Rightarrow> series" where
  "shift1 xs = (if xs = [] then [] else NaN # butlast xs)"

definition series_mul :: "series \<Rightarrow> series \<Rightarrow> series" where
  "series_mul xs ys = map (\<lambda>(x, y). fmul x y) (zip xs ys)"

text \<open>
  The two assignments that add \<open>Returns\<close> and \<open>Strategy_Returns\<close>. pandas'
  \<open>Series.pct_change\<close>, whose treatment of missing values differs between pandas
  versions, is the parameter \<open>pct_change\<close>. The frame is returned as far as it was
  changed, with the KeyError of a missing column if there is one.
\<close>

definition add_returns :: "(series \<Rightarrow> series) \<Rightarrow> dataframe \<Rightarrow> error option \<times> dataframe" where
  "add_returns pct_change df =
     (case (if df ''Returns'' = None
            then (case df ''Close'' of
                    None \<Rightarrow> (Some (KeyError ''Close''), df)
                  | Some close \<Rightarrow> (None, df(''Returns'' \<mapsto> pct_change close)))
            else (None, df)) of
        (Some e, df1) \<Rightarrow> (Some e, df1)
      | (None, df1) \<Rightarrow>
          if df1 ''Strategy_Returns'' = None
          then (case df1 ''Signal'' of
                  None \<Rightarrow> (Some (KeyError ''Signal''), df1)
                | Some signal \<Rightarrow>
                    (case df1 ''Returns'' of
                       None \<Rightarrow> (Some (KeyError ''Returns''), df1)
                     | Some returns \<Rightarrow>
                         (None, df1(''Strategy_Returns'' \<mapsto> series_mul (shift1 signal) returns))))
          else (None, df1))"

text \<open>
  Iterating over \<open>metric.requires\<close>: a list gives its elements, a string its characters,
  anything else is a TypeError.
\<close>

definition iterate_columns :: "attribute \<Rightarrow> error + string list" where
  "iterate_columns a =
     (case a of
        AColumns cols \<Rightarrow> Inr cols
      | AStr s \<Rightarrow> Inr (map (\<lambda>c. [c]) s)
      | _ \<Rightarrow> Inl (TypeError ''object is not iterable''))"

text \<open>
  The \<open>try\<close> block: \<open>metric.function(self.data)\<close>, with None stored when anything in it
  raises (the attribute lookup included).
\<close>

definition call_metric :: "pyobject \<Rightarrow> dataframe \<Rightarrow> pyfloat option" where
  "call_metric metric df =
     (case getattr ''Metric'' metric ''function'' of
        Inr (AFunction f) \<Rightarrow> (case f df of Inl e \<Rightarrow> None | Inr v \<Rightarrow> Some v)
      | _ \<Rightarrow> None)"

text \<open>
  The loop \<open>for metric_name in metrics_list\<close>. It returns the exception that ends it, if
  any, and the \<open>performance_metrics\<close> dictionary as it stands then.
\<close>

fun metrics_loop ::
  "(string \<times> pyobject) list \<Rightarrow> dataframe \<Rightarrow> string list \<Rightarrow> (string \<rightharpoonup> pyfloat option) \<Rightarrow>
   error option \<times> (string \<rightharpoonup> pyfloat option)" where
  "metrics_loop registry df [] pm = (None, pm)"
| "metrics_loop registry df (name # rest) pm =
     (case map_of registry name of
        None \<Rightarrow> (Some (UnknownMetric name), pm)
      | Some metric \<Rightarrow>
          (case getattr ''Metric'' metric ''requires'' of
             Inl e \<Rightarrow> (Some e, pm)
           | Inr a \<Rightarrow>
               (case iterate_columns a of
                  Inl e \<Rightarrow> (Some e, pm)
                | Inr requires \<Rightarrow>
                    if filter (\<lambda>col. df col = None) requires \<noteq> []
                    then (Some (MissingColumns name (filter (\<lambda>col. df col = None) requires)), pm)
                    else metrics_loop registry df rest (pm(name \<mapsto> call_metric metric df)))))"

text \<open>
  \<open>calculate_metrics\<close>: the result (the dictionary, or the exception raised) and the
  object as the call leaves it. The registry is a parameter; the source passes
  AVAILABLE\_METRICS.
\<close>

definition calculate_metrics ::
  "(series \<Rightarrow> series) \<Rightarrow> (string \<times> pyobject) list \<Rightarrow> strategy \<Rightarrow> string list option \<Rightarrow>
   (error + (string \<rightharpoonup> pyfloat option)) \<times> strategy" where
  "calculate_metrics pct_change registry self metrics_list =
     (case data self of
        None \<Rightarrow> (Inl (ValueError ''Strategy must be run before calculating metrics''), self)
      | Some df0 \<Rightarrow>
          if df0 ''Signal'' = None
          then (Inl (ValueError ''Strategy must be run before calculating metrics''), self)
          else (case add_returns pct_change df0 of
                  (Some e, df) \<Rightarrow> (Inl e, self\<lparr>data := Some df\<rparr>)
                | (None, df) \<Rightarrow>
                    (case metrics_loop registry df
                            (case metrics_list of None \<Rightarrow> map fst registry | Some l \<Rightarrow> l)
                            (performance_metrics self) of
                       (Some e, pm) \<Rightarrow>
                         (Inl e, self\<lparr>data := Some df, performance_metrics := pm\<rparr>)
                     | (None, pm) \<Rightarrow>
                         (Inr pm, self\<lparr>data := Some df, performance_metrics := pm\<rparr>))))"

text \<open>A strategy that has run: prices, a signal and per-period returns, no trades.\<close>

definition run_without_trades :: strategy where
  "run_without_trades =
     \<lparr> data = Some [''Close'' \<mapsto> [Fin 100, Fin 110, Fin 99],
                     ''Signal'' \<mapsto> [Fin 0, Fin 1, Fin 1],
                     ''returns'' \<mapsto> [Fin 0, Fin (1 / 10), Fin (- (1 / 10))]],
       performance_metrics = Map.empty \<rparr>"

text \<open>The percentage change from one value to the next, nothing filled in.\<close>

definition pct_change_plain :: "series \<Rightarrow> series" where
  "pct_change_plain xs =
     (if xs = [] then []
      else NaN # map (\<lambda>(prev, cur). fsub (fdiv cur prev) (Fin 1)) (zip (butlast xs) (tl xs)))"

section \<open>The optimizers (strategies/optimization.py)\<close>

subsection \<open>The strategy class and Optuna\<close>

text \<open>
  The optimizer is given a strategy class and only calls it: it builds an instance for
  the symbol, asks for its bounds, sets parameters and runs it. The class is the record of
  what these calls do. \<open>class_set_parameters\<close> is the exception \<open>set_parameters\<close> raises,
  if any; \<open>class_run_strategy\<close> is the object after \<open>run_strategy\<close>, or the exception it
  raises. A bound is the parameter's type name and the rest of the tuple.
\<close>

record strategy_class =
  class_get_optimization_bounds :: "string \<Rightarrow> error + (string \<times> string \<times> pyval list) list"
  class_set_parameters :: "string \<Rightarrow> (string \<times> pyval) list \<Rightarrow> error option"
  class_run_strategy :: "string \<Rightarrow> (string \<times> pyval) list \<Rightarrow> error + strategy"

text \<open>
  What Optuna keeps of a trial once the objective has returned: the suggested
  parameters, the user attributes, the objective values (one for a single objective).
\<close>

record finished_trial =
  trial_params :: "(string \<times> pyval) list"
  trial_user_attrs :: "(string \<times> pyfloat option) list"
  trial_values :: "pyfloat option list"

datatype direction = Maximize | Minimize

record study =
  directions :: "direction list"
  trials :: "finished_trial list"

text \<open>
  \<open>trial.suggest_int\<close>, \<open>trial.suggest_float\<close> and \<open>trial.suggest_categorical\<close> belong to
  Optuna's sampler: a parameter, given the trials finished so far, the kind of
  suggestion, the parameter name and the arguments.
\<close>

type_synonym sampler =
  "finished_trial list \<Rightarrow> string \<Rightarrow> string \<Rightarrow> pyval list \<Rightarrow> error + pyval"

subsection \<open>StrategyOptimizer\<close>

record StrategyOptimizer =
  strategy_class :: strategy_class
  optimizer_symbol :: string
  objective_name :: string
  objective_function :: OptimizationObjective
  additional_metrics :: "string list"

definition StrategyOptimizer_init ::
  "strategy_class \<Rightarrow> string \<Rightarrow> string \<Rightarrow> string list option \<Rightarrow> error + StrategyOptimizer" where
  "StrategyOptimizer_init cls symb name extra =
     (case map_of OPTIMIZATION_OBJECTIVES name of
        None \<Rightarrow> Inl (ValueError (''Unknown optimization objective: '' @ name))
      | Some obj \<Rightarrow>
          Inr \<lparr> strategy_class = cls, optimizer_symbol = symb, objective_name = name,
                objective_function = obj,
                additional_metrics = (case extra of None \<Rightarrow> [] | Some l \<Rightarrow> l) \<rparr>)"

text \<open>The loop of \<open>create_trial_params\<close> over the items of the bounds dictionary.\<close>

fun suggest_all ::
  "(string \<Rightarrow> string \<Rightarrow> pyval list \<Rightarrow> error + pyval) \<Rightarrow> (string \<times> string \<times> pyval list) list \<Rightarrow>
   (string \<times> pyval) list \<Rightarrow> error + (string \<times> pyval) list" where
  "suggest_all suggest [] params = Inr params"
| "suggest_all suggest ((param_name, param_type, bounds_values) # rest) params =
     (case (if param_type = ''int'' then suggest ''int'' param_name bounds_values
            else if param_type = ''float'' then suggest ''float'' param_name bounds_values
            else if param_type = ''categorical''
            then (case bounds_values of
                    [] \<Rightarrow> Inl (IndexError ''list index out of range'')
                  | choices # _ \<Rightarrow> suggest ''categorical'' param_name [choices])
            else Inl (ValueError (''Unknown parameter type: '' @ param_type))) of
        Inl e \<Rightarrow> Inl e
      | Inr v \<Rightarrow> suggest_all suggest rest (params @ [(param_name, v)]))"

definition create_trial_params ::
  "'z StrategyOptimizer_scheme \<Rightarrow> (string \<Rightarrow> string \<Rightarrow> pyval list \<Rightarrow> error + pyval) \<Rightarrow>
   error + (string \<times> pyval) list" where
  "create_trial_params self suggest =
     (case class_get_optimization_bounds (strategy_class self) (optimizer_symbol self) of
        Inl e \<Rightarrow> Inl e
      | Inr bounds \<Rightarrow> suggest_all suggest bounds [])"

text \<open>
  \<open>objective\<close>: only \<open>run_strategy\<close> is inside the \<open>try\<close>; an exception anywhere else
  leaves the function. \<open>metrics.get(name, float('-inf'))\<close> is the stored value when the
  key is there, None included.
\<close>

definition objective ::
  "(series \<Rightarrow> series) \<Rightarrow> (string \<times> pyobject) list \<Rightarrow> StrategyOptimizer \<Rightarrow>
   (string \<Rightarrow> string \<Rightarrow> pyval list \<Rightarrow> error + pyval) \<Rightarrow> error + finished_trial" where
  "objective pct_change registry self suggest =
     (case create_trial_params self suggest of
        Inl e \<Rightarrow> Inl e
      | Inr params \<Rightarrow>
          (case class_set_parameters (strategy_class self) (optimizer_symbol self) params of
             Some e \<Rightarrow> Inl e
           | None \<Rightarrow>
               (case class_run_strategy (strategy_class self) (optimizer_symbol self) params of
                  Inl e \<Rightarrow>
                    Inr \<lparr> trial_params = params, trial_user_attrs = [],
                          trial_values = [Some NInf] \<rparr>
                | Inr strategy \<Rightarrow>
                    (case fst (calculate_metrics pct_change registry strategy
                                 (Some (objective_name self # additional_metrics self))) of
                       Inl e \<Rightarrow> Inl e
                     | Inr metrics \<Rightarrow>
                         Inr \<lparr> trial_params = params,
                               trial_user_attrs =
                                 List.map_filter (\<lambda>n. map_option (Pair n) (metrics n))
                                   (additional_metrics self),
                               trial_values =
                                 [case metrics (objective_name self) of
                                    None \<Rightarrow> Some NInf | Some v \<Rightarrow> v] \<rparr>))))"

text \<open>
  \<open>study.optimize(self.objective, n_trials=n_trials)\<close>: one call of the objective per
  trial; an exception that leaves the objective leaves the study too (Optuna catches
  none by default). The wall-clock \<open>timeout\<close> is not modelled.
\<close>

fun study_optimize ::
  "(finished_trial list \<Rightarrow> error + finished_trial) \<Rightarrow> nat \<Rightarrow> study \<Rightarrow> error + study" where
  "study_optimize f 0 st = Inr st"
| "study_optimize f (Suc n) st =
     (case f (trials st) of
        Inl e \<Rightarrow> Inl e
      | Inr t \<Rightarrow> study_optimize f n (st\<lparr>trials := trials st @ [t]\<rparr>))"

definition optimize ::
  "(series \<Rightarrow> series) \<Rightarrow> (string \<times> pyobject) list \<Rightarrow> sampler \<Rightarrow> StrategyOptimizer \<Rightarrow>
   nat \<Rightarrow> direction \<Rightarrow> error + study" where
  "optimize pct_change registry sampler self n_trials direction =
     study_optimize (\<lambda>history. objective pct_change registry self (sampler history))
       n_trials \<lparr> directions = [direction], trials = [] \<rparr>"

subsection \<open>MultiObjectiveOptimizer\<close>

record MultiObjectiveOptimizer = StrategyOptimizer +
  objectives :: "string list"

definition MultiObjectiveOptimizer_init ::
  "strategy_class \<Rightarrow> string \<Rightarrow> string list \<Rightarrow> error + MultiObjectiveOptimizer" where
  "MultiObjectiveOptimizer_init cls symb objs =
     (if objs = [] then Inl (ValueError ''At least one objective must be specified'')
      else (case find (\<lambda>obj. map_of OPTIMIZATION_OBJECTIVES obj = None) objs of
              Some obj \<Rightarrow> Inl (ValueError (''Unknown optimization objective: '' @ obj))
            | None \<Rightarrow>
                (case StrategyOptimizer_init cls symb (hd objs) None of
                   Inl e \<Rightarrow> Inl e
                 | Inr base \<Rightarrow> Inr (StrategyOptimizer.extend base \<lparr> objectives = objs \<rparr>))))"

definition objective_multi ::
  "(series \<Rightarrow> series) \<Rightarrow> (string \<times> pyobject) list \<Rightarrow> MultiObjectiveOptimizer \<Rightarrow>
   (string \<Rightarrow> string \<Rightarrow> pyval list \<Rightarrow> error + pyval) \<Rightarrow> error + finished_trial" where
  "objective_multi pct_change registry self suggest =
     (case create_trial_params self suggest of
        Inl e \<Rightarrow> Inl e
      | Inr params \<Rightarrow>
          (case class_set_parameters (strategy_class self) (optimizer_symbol self) params of
             Some e \<Rightarrow> Inl e
           | None \<Rightarrow>
               (case class_run_strategy (strategy_class self) (optimizer_symbol self) params of
                  Inl e \<Rightarrow>
                    Inr \<lparr> trial_params = params, trial_user_attrs = [],
                          trial_values = replicate (length (objectives self)) (Some NInf) \<rparr>
                | Inr strategy \<Rightarrow>
                    (case fst (calculate_metrics pct_change registry strategy
                                 (Some (objectives self))) of
                       Inl e \<Rightarrow> Inl e
                     | Inr metrics \<Rightarrow>
                         Inr \<lparr> trial_params = params, trial_user_attrs = [],
                               trial_values =
                                 map (\<lambda>obj. case metrics obj of
                                               None \<Rightarrow> Some NInf | Some v \<Rightarrow> v)
                                     (objectives self) \<rparr>))))"

text \<open>The directions \<open>optimize\<close> derives: KeyError for a name outside the catalogue.\<close>

fun derive_directions :: "string list \<Rightarrow> error + direction list" where
  "derive_directions [] = Inr []"
| "derive_directions (obj # rest) =
     (case map_of OPTIMIZATION_OBJECTIVES obj of
        None \<Rightarrow> Inl (KeyError obj)
      | Some entry \<Rightarrow>
          (case derive_directions rest of
             Inl e \<Rightarrow> Inl e
           | Inr ds \<Rightarrow> Inr ((if higher_is_better entry then Maximize else Minimize) # ds)))"

definition optimize_multi ::
  "(series \<Rightarrow> series) \<Rightarrow> (string \<times> pyobject) list \<Rightarrow> sampler \<Rightarrow> MultiObjectiveOptimizer \<Rightarrow>
   nat \<Rightarrow> error + study" where
  "optimize_multi pct_change registry sampler self n_trials =
     (case derive_directions (objectives self) of
        Inl e \<Rightarrow> Inl e
      | Inr ds \<Rightarrow>
          study_optimize (\<lambda>history. objective_multi pct_change registry self (sampler history))
            n_trials \<lparr> directions = ds, trials = [] \<rparr>)"

subsection \<open>A strategy class whose run always fails\<close>

definition failing_class :: strategy_class where
  "failing_class =
     \<lparr> class_get_optimization_bounds = (\<lambda>symb. Inr [(''window'', ''int'', [PInt 5, PInt 50])]),
       class_set_parameters = (\<lambda>symb params. None),
       class_run_strategy = (\<lambda>symb params. Inl (StrategyError ''no data for symbol'')) \<rparr>"

text \<open>A sampler that suggests the first argument it is given (the lower bound).\<close>

definition first_sampler :: sampler where
  "first_sampler history kind name args =
     (case args of [] \<Rightarrow> Inl (TypeError ''missing argument'') | v # _ \<Rightarrow> Inr v)"

definition drawdown_optimizer :: StrategyOptimizer where
  "drawdown_optimizer =
     \<lparr> strategy_class = failing_class, optimizer_symbol = ''TEST'',
       objective_name = ''max_drawdown'',
       objective_function =
         \<lparr> objective_title = ''Minimize Maximum Drawdown'',
           objective_description = ''Optimize for capital preservation'',
           higher_is_better = False, metric_name = ''max_drawdown'' \<rparr>,
       additional_metrics = [] \<rparr>"

definition sharpe_optimizer :: StrategyOptimizer where
  "sharpe_optimizer =
     \<lparr> strategy_class = failing_class, optimizer_symbol = ''TEST'',
       objective_name = ''sharpe_ratio'',
       objective_function =
         \<lparr> objective_title = ''Maximize Sharpe Ratio'',
           objective_description = ''Optimize for risk-adjusted returns'',
           higher_is_better = True, metric_name = ''sharpe_ratio'' \<rparr>,
       additional_metrics = [] \<rparr>"

definition sharpe_drawdown_optimizer :: MultiObjectiveOptimizer where
  "sharpe_drawdown_optimizer =
     StrategyOptimizer.extend sharpe_optimizer \<lparr> objectives = [''sharpe_ratio'', ''max_drawdown''] \<rparr>"

section \<open>Properties of the genetic strategy\<close>

subsection \<open>Auxiliary lemmas\<close>

lemma random_sample_small:
  "length pop < k \<Longrightarrow> random_sample rt pop k g = Inl (ValueError ''Sample larger than population or is negative'')"
  by (simp add: random_sample_def)

lemma select_parents_small:
  "length pop < 3 \<Longrightarrow> select_parents rt f pop g = Inl (ValueError ''Sample larger than population or is negative'')"
  by (simp add: select_parents_def numeral_2_eq_2 random_sample_small tournament_size_def)

lemma elitism_loop_Inr:
  "elitism_loop pop si js acc = Inr r \<Longrightarrow>
     r = acc @ map (\<lambda>i. pop ! (si ! i)) js \<and> (\<forall>i\<in>set js. i < length si \<and> si ! i < length pop)"
proof (induction js arbitrary: acc)
  case Nil
  then show ?case by simp
next
  case (Cons a js)
  from Cons.prems have a: "a < length si" "si ! a < length pop"
    and rec: "elitism_loop pop si js (acc @ [pop ! (si ! a)]) = Inr r"
    by (auto split: if_splits)
  from Cons.IH[OF rec] a show ?case by simp
qed

lemma elitism_loop_ok:
  "(\<forall>i\<in>set js. i < length si \<and> si ! i < length pop) \<Longrightarrow>
     elitism_loop pop si js acc = Inr (acc @ map (\<lambda>i. pop ! (si ! i)) js)"
  by (induction js arbitrary: acc) auto

lemma elitism_loop_err:
  "\<exists>i\<in>set js. length si \<le> i \<Longrightarrow> \<forall>i\<in>set si. i < length pop \<Longrightarrow>
     elitism_loop pop si js acc = Inl (IndexError ''index out of bounds'')"
proof (induction js arbitrary: acc)
  case Nil
  then show ?case by simp
next
  case (Cons a js)
  show ?case
  proof (cases "length si \<le> a")
    case True
    then show ?thesis by simp
  next
    case False
    then have "si ! a \<in> set si" by simp
    with Cons.prems(2) have lt: "\<not> length pop \<le> si ! a" by fastforce
    from False Cons.prems(1) have ex: "\<exists>i\<in>set js. length si \<le> i" by auto
    have "elitism_loop pop si (a # js) acc = elitism_loop pop si js (acc @ [pop ! (si ! a)])"
      using False lt by simp
    also have "\<dots> = Inl (IndexError ''index out of bounds'')"
      by (rule Cons.IH[OF ex Cons.prems(2)])
    finally show ?thesis .
  qed
qed

lemma max_key_winner:
  "max_key f t = Inr w \<Longrightarrow> w \<in> set t \<and> (\<forall>x\<in>set t. f x \<le> f w)"
proof -
  have fold_prop: "\<And>m. let w = fold (\<lambda>y m. if f m < f y then y else m) xs m
            in w \<in> insert m (set xs) \<and> f m \<le> f w \<and> (\<forall>x\<in>set xs. f x \<le> f w)" for xs
  proof (induction xs)
    case Nil
    then show ?case by simp
  next
    case (Cons a xs)
    show ?case using Cons.IH[of "if f m < f a then a else m"]
      by (auto simp: Let_def split: if_splits)
  qed
  assume "max_key f t = Inr w"
  then obtain x rest where t: "t = x # rest"
    and w: "w = fold (\<lambda>y m. if f m < f y then y else m) rest x"
    by (auto simp: max_key_def split: list.splits)
  from fold_prop[of rest x] w t show ?thesis by (auto simp: Let_def)
qed

lemma max_key_nonempty: "t \<noteq> [] \<Longrightarrow> \<exists>w. max_key f t = Inr w"
  by (cases t) (auto simp: max_key_def)

lemma random_sample_ok:
  assumes "sample_ok rt" "k \<le> length pop"
  shows "\<exists>idxs g'. random_sample_positions rt (length pop) k g = (idxs, g') \<and>
           random_sample rt pop k g = Inr (map (\<lambda>i. pop ! i) idxs, g') \<and>
           length idxs = k \<and> distinct idxs \<and> (\<forall>i\<in>set idxs. i < length pop)"
proof -
  obtain idxs g' where p: "random_sample_positions rt (length pop) k g = (idxs, g')"
    by (cases "random_sample_positions rt (length pop) k g")
  from assms p have "length idxs = k \<and> distinct idxs \<and> (\<forall>i\<in>set idxs. i < length pop)"
    unfolding sample_ok_def by (metis (mono_tags, lifting) case_prod_conv)
  with p assms(2) show ?thesis by (simp add: random_sample_def)
qed

lemma select_parents_ok:
  assumes "sample_ok rt" "3 \<le> length pop"
  shows "\<exists>i1 g1 i2 g2 w1 w2.
           random_sample_positions rt (length pop) 3 g = (i1, g1) \<and>
           random_sample_positions rt (length pop) 3 g1 = (i2, g2) \<and>
           max_key f (map (\<lambda>i. pop ! i) i1) = Inr w1 \<and>
           max_key f (map (\<lambda>i. pop ! i) i2) = Inr w2 \<and>
           select_parents rt f pop g = Inr ([w1, w2], g2)"
proof -
  from random_sample_ok[OF assms, of g] obtain i1 g1 where
    p1: "random_sample_positions rt (length pop) 3 g = (i1, g1)"
    and s1: "random_sample rt pop 3 g = Inr (map (\<lambda>i. pop ! i) i1, g1)"
    and l1: "length i1 = 3" by blast
  from random_sample_ok[OF assms, of g1] obtain i2 g2 where
    p2: "random_sample_positions rt (length pop) 3 g1 = (i2, g2)"
    and s2: "random_sample rt pop 3 g1 = Inr (map (\<lambda>i. pop ! i) i2, g2)"
    and l2: "length i2 = 3" by blast
  from l1 have "map (\<lambda>i. pop ! i) i1 \<noteq> []" by (cases i1) simp_all
  from max_key_nonempty[OF this, of f]
  obtain w1 where w1: "max_key f (map (\<lambda>i. pop ! i) i1) = Inr w1" ..
  from l2 have "map (\<lambda>i. pop ! i) i2 \<noteq> []" by (cases i2) simp_all
  from max_key_nonempty[OF this, of f]
  obtain w2 where w2: "max_key f (map (\<lambda>i. pop ! i) i2) = Inr w2" ..
  have sp: "select_parents rt f pop g = select_parents_loop rt f pop (Suc (Suc 0)) [] g"
    by (simp only: select_parents_def numeral_2_eq_2)
  have "select_parents rt f pop g = Inr ([w1, w2], g2)"
    unfolding sp select_parents_loop.simps tournament_size_def s1 by (simp add: w1 s2 w2)
  with p1 p2 w1 w2 show ?thesis by blast
qed

lemma random_choice_ok: "pop \<noteq> [] \<Longrightarrow> \<exists>c g'. random_choice rt pop g = Inr (c, g')"
  by (auto simp: random_choice_def split: prod.splits)

lemma store_prefix_length: "take (length xs) ys = xs \<Longrightarrow> length xs \<le> length ys"
proof -
  assume "take (length xs) ys = xs"
  then have "length (take (length xs) ys) = length xs" by simp
  then show ?thesis by simp
qed

lemma store_prefix_trans:
  assumes "take (length xs) ys = xs" "take (length ys) zs = ys"
  shows "take (length xs) zs = xs"
proof -
  from assms(1) have "length xs \<le> length ys" by (rule store_prefix_length)
  then have "take (length xs) zs = take (length xs) (take (length ys) zs)"
    by (simp add: min_def)
  with assms show ?thesis by simp
qed

text \<open>The two stages of the loop body: producing the child, then mutating it.\<close>

lemma make_child_stages:
  "make_child rt h self g =
     (case (if fst (random_random rt g) < crossover_rate self
            then (case select_parents rt (fitness_at h (objects self)) (population self)
                         (snd (random_random rt g)) of
                    Inl e \<Rightarrow> Inl e
                  | Inr (parents, g2) \<Rightarrow>
                      Inr (crossover h (objects self) (parents ! 0) (parents ! 1) g2))
            else (case random_choice rt (population self) (snd (random_random rt g)) of
                    Inl e \<Rightarrow> Inl e
                  | Inr (child, g2) \<Rightarrow> Inr ((child, objects self), g2))) of
        Inl e \<Rightarrow> Inl e
      | Inr ((child, store), g3) \<Rightarrow>
          if fst (random_random rt g3) < mutation_rate self
          then Inr (mutate h store child (snd (random_random rt g3)))
          else Inr ((child, store), snd (random_random rt g3)))"
  unfolding make_child_def
  by (simp add: case_prod_beta split: sum.splits)

lemma make_child_ok:
  assumes "sample_ok rt" "3 \<le> length (population self)"
  shows "\<exists>c g'. make_child rt h self g = Inr (c, g')"
proof -
  let ?g1 = "snd (random_random rt g)"
  define X where "X = (if fst (random_random rt g) < crossover_rate self
            then (case select_parents rt (fitness_at h (objects self)) (population self) ?g1 of
                    Inl e \<Rightarrow> Inl e
                  | Inr (parents, g2) \<Rightarrow>
                      Inr (crossover h (objects self) (parents ! 0) (parents ! 1) g2))
            else (case random_choice rt (population self) ?g1 of
                    Inl e \<Rightarrow> Inl e
                  | Inr (child, g2) \<Rightarrow> Inr ((child, objects self), g2)))"
  have "\<exists>c st g3. X = Inr ((c, st), g3)"
  proof (cases "fst (random_random rt g) < crossover_rate self")
    case True
    from select_parents_ok[OF assms, of ?g1 "fitness_at h (objects self)"] obtain ps g2 where
      "select_parents rt (fitness_at h (objects self)) (population self) ?g1 = Inr (ps, g2)"
      by blast
    with True have "X = Inr (crossover h (objects self) (ps ! 0) (ps ! 1) g2)"
      unfolding X_def by simp
    then show ?thesis
      by (metis prod.exhaust)
  next
    case False
    from assms(2) have "population self \<noteq> []" by auto
    from random_choice_ok[OF this, of rt ?g1] obtain c g2 where
      "random_choice rt (population self) ?g1 = Inr (c, g2)" by blast
    with False have "X = Inr ((c, objects self), g2)" unfolding X_def by simp
    then show ?thesis by blast
  qed
  then obtain c st g3 where st: "X = Inr ((c, st), g3)" by blast
  have "make_child rt h self g =
          (if fst (random_random rt g3) < mutation_rate self
           then Inr (mutate h st c (snd (random_random rt g3)))
           else Inr ((c, st), snd (random_random rt g3)))"
    unfolding make_child_stages X_def[symmetric] st by simp
  then show ?thesis by (cases "fst (random_random rt g3) < mutation_rate self") simp_all
qed

lemma make_child_store:
  assumes "make_child rt h self g = Inr ((c, store), g')" "leaves_individuals h"
  shows "take (length (objects self)) store = objects self"
proof -
  let ?g1 = "snd (random_random rt g)"
  define X where "X = (if fst (random_random rt g) < crossover_rate self
            then (case select_parents rt (fitness_at h (objects self)) (population self) ?g1 of
                    Inl e \<Rightarrow> Inl e
                  | Inr (parents, g2) \<Rightarrow>
                      Inr (crossover h (objects self) (parents ! 0) (parents ! 1) g2))
            else (case random_choice rt (population self) ?g1 of
                    Inl e \<Rightarrow> Inl e
                  | Inr (child, g2) \<Rightarrow> Inr ((child, objects self), g2)))"
  from assms(1) obtain c0 s0 g3 where st: "X = Inr ((c0, s0), g3)"
    unfolding make_child_stages X_def[symmetric]
    by (cases X) auto
  have cross: "take (length st) st' = st" if "crossover h st a b g0 = ((cc, st'), g1)"
    for st a b g0 cc st' g1
    using assms(2) that unfolding leaves_individuals_def
    by (metis (mono_tags, lifting) case_prod_conv)
  have mut: "take (length st) st' = st" if "mutate h st a g0 = ((cc, st'), g1)"
    for st a g0 cc st' g1
    using assms(2) that unfolding leaves_individuals_def
    by (metis (mono_tags, lifting) case_prod_conv)
  have s0: "take (length (objects self)) s0 = objects self"
  proof (cases "fst (random_random rt g) < crossover_rate self")
    case True
    with st obtain ps g2 where
      "crossover h (objects self) (ps ! 0) (ps ! 1) g2 = ((c0, s0), g3)"
      unfolding X_def by (auto split: sum.splits)
    then show ?thesis by (rule cross)
  next
    case False
    with st have "s0 = objects self" unfolding X_def by (auto split: sum.splits)
    then show ?thesis by simp
  qed
  show ?thesis
  proof (cases "fst (random_random rt g3) < mutation_rate self")
    case True
    with assms(1) have "mutate h s0 c0 (snd (random_random rt g3)) = ((c, store), g')"
      unfolding make_child_stages X_def[symmetric] st by simp
    from mut[OF this] s0 show ?thesis by (rule store_prefix_trans[rotated])
  next
    case False
    with assms(1) have "s0 = store"
      unfolding make_child_stages X_def[symmetric] st by simp
    with s0 show ?thesis by simp
  qed
qed

lemma fill_loop_Inr:
  "fill_loop rt h self np g = Inr ((r, store), g') \<Longrightarrow>
     take (length np) r = np \<and> length np \<le> length r \<and>
     (int (length np) \<le> population_size self \<longrightarrow> int (length r) = population_size self) \<and>
     (leaves_individuals h \<longrightarrow> take (length (objects self)) store = objects self)"
proof (induction rt h self np g rule: fill_loop.induct)
  case (1 rt h self np g)
  show ?case
  proof (cases "int (length np) < population_size self")
    case False
    with "1.prems" show ?thesis by (simp split: if_splits)
  next
    case True
    with "1.prems" obtain child s1 g1 where
      mc: "make_child rt h self g = Inr ((child, s1), g1)" and
      rec: "fill_loop rt h (self\<lparr>objects := s1\<rparr>) (np @ [child]) g1 = Inr ((r, store), g')"
      by (subst (asm) fill_loop.simps) (auto split: sum.splits)
    note ih = "1.IH"[OF True mc refl refl rec]
    from ih[THEN conjunct1] have a: "take (Suc (length np)) r = np @ [child]" by simp
    from ih[THEN conjunct2, THEN conjunct1] have b: "Suc (length np) \<le> length r" by simp
    from True have "int (length (np @ [child])) \<le> population_size (self\<lparr>objects := s1\<rparr>)"
      by simp
    with ih[THEN conjunct2, THEN conjunct2, THEN conjunct1]
    have c: "int (length r) = population_size self" by simp
    have os: "objects (self\<lparr>objects := s1\<rparr>) = s1" by simp
    note d = ih[THEN conjunct2, THEN conjunct2, THEN conjunct2, unfolded os]
    have "take (length np) (take (Suc (length np)) r) = take (length np) (np @ [child])"
      by (simp only: a)
    then have e: "take (length np) r = np" by (simp add: min_def)
    have f: "leaves_individuals h \<longrightarrow> take (length (objects self)) store = objects self"
    proof
      assume l: "leaves_individuals h"
      from d l have "take (length s1) store = s1" by (rule mp)
      from store_prefix_trans[OF make_child_store[OF mc l] this]
      show "take (length (objects self)) store = objects self" .
    qed
    from b have b': "length np \<le> length r" by simp
    show ?thesis
    proof (intro conjI impI)
      show "take (length np) r = np" by (rule e)
      show "length np \<le> length r" by (rule b')
      show "int (length r) = population_size self" by (rule c)
    next
      assume "leaves_individuals h"
      with f show "take (length (objects self)) store = objects self" by (rule mp)
    qed
  qed
qed

lemma fill_loop_ok:
  "(\<forall>store g. \<exists>c g'. make_child rt h (self\<lparr>objects := store\<rparr>) g = Inr (c, g')) \<Longrightarrow>
     \<exists>r g'. fill_loop rt h self np g = Inr (r, g')"
proof (induction rt h self np g rule: fill_loop.induct)
  case (1 rt h self np g)
  show ?case
  proof (cases "int (length np) < population_size self")
    case False
    then show ?thesis by simp
  next
    case True
    from "1.prems"[rule_format, of "objects self" g] obtain c s1 g1 where
      mc: "make_child rt h self g = Inr ((c, s1), g1)" by auto
    have "\<forall>store g. \<exists>c g'. make_child rt h (self\<lparr>objects := s1\<rparr>\<lparr>objects := store\<rparr>) g = Inr (c, g')"
      using "1.prems" by simp
    from "1.IH"[OF True mc refl refl this] obtain r g' where
      "fill_loop rt h (self\<lparr>objects := s1\<rparr>) (np @ [c]) g1 = Inr (r, g')" by blast
    with True mc show ?thesis by (subst fill_loop.simps) simp
  qed
qed

lemma np_argmax_ok: "xs \<noteq> [] \<Longrightarrow> \<exists>i. np_argmax xs = Inr i"
  by (cases xs) (auto simp: np_argmax_def)

lemma elitism_range_Inr:
  assumes "elitism_loop pop si [0..<k] [] = Inr elites"
  shows "k \<le> length si \<and> elites = map (\<lambda>i. pop ! i) (take k si) \<and>
         (\<forall>i\<in>set (take k si). i < length pop)"
proof -
  from elitism_loop_Inr[OF assms]
  have e: "elites = map (\<lambda>i. pop ! (si ! i)) [0..<k]"
    and r: "\<forall>i\<in>set [0..<k]. i < length si \<and> si ! i < length pop" by auto
  have k: "k \<le> length si"
  proof (cases k)
    case 0
    then show ?thesis by simp
  next
    case (Suc m)
    with r have "m < length si" by auto
    with Suc show ?thesis by simp
  qed
  have t: "take k si = map (\<lambda>i. si ! i) [0..<k]"
    using k by (auto simp: list_eq_iff_nth_eq)
  have "elites = map (\<lambda>i. pop ! i) (take k si)"
    unfolding t e by simp
  moreover have "\<forall>i\<in>set (take k si). i < length pop"
    unfolding t using r by auto
  ultimately show ?thesis using k by blast
qed

lemma elitism_range_ok:
  assumes "k \<le> length si" "\<forall>i\<in>set si. i < length pop"
  shows "elitism_loop pop si [0..<k] [] = Inr (map (\<lambda>i. pop ! i) (take k si))"
proof -
  have t: "take k si = map (\<lambda>i. si ! i) [0..<k]"
    using assms(1) by (auto simp: list_eq_iff_nth_eq)
  have "\<forall>i\<in>set [0..<k]. i < length si \<and> si ! i < length pop"
    using assms by auto
  from elitism_loop_ok[OF this, of "[]"] show ?thesis unfolding t by simp
qed


lemma generation_step_Inr:
  assumes "generation_step rt h self g = Inr (self', g')"
  shows "\<exists>elites.
           elitism_loop (population self)
             (rev (np_argsort rt (map (fitness_at h (objects self)) (population self))))
             [0..<nat (elite_size self)] [] = Inr elites \<and>
           fill_loop rt h self elites g = Inr ((population self', objects self'), g') \<and>
           population_size self' = population_size self \<and>
           elite_size self' = elite_size self \<and>
           fitness_history self' =
             fitness_history self
               @ [np_mean (map (fitness_at h (objects self)) (population self))]"
proof -
  let ?scores = "map (fitness_at h (objects self)) (population self)"
  let ?si = "rev (np_argsort rt ?scores)"
  from assms obtain bi where bi: "np_argmax ?scores = Inr bi"
    unfolding generation_step_def Let_def by (cases "np_argmax ?scores") simp_all
  from assms obtain elites where
    el: "elitism_loop (population self) ?si [0..<nat (elite_size self)] [] = Inr elites"
    unfolding generation_step_def Let_def bi sum.case
    by (cases "elitism_loop (population self) ?si [0..<nat (elite_size self)] []") simp_all
  from assms obtain np st g1 where fl: "fill_loop rt h self elites g = Inr ((np, st), g1)"
    unfolding generation_step_def Let_def bi sum.case el
    by (cases "fill_loop rt h self elites g") auto
  from assms[unfolded generation_step_def Let_def bi sum.case el fl]
  have "population self' = np" "objects self' = st" "g' = g1"
    "population_size self' = population_size self"
    "elite_size self' = elite_size self"
    "fitness_history self' = fitness_history self @ [np_mean ?scores]"
    by auto
  with el fl show ?thesis by auto
qed

lemma generation_step_ok:
  assumes "sample_ok rt"
    and "argsort_ok rt (map (fitness_at h (objects self)) (population self))"
    and "3 \<le> length (population self)"
    and "nat (elite_size self) \<le> length (population self)"
  shows "\<exists>self' g'. generation_step rt h self g = Inr (self', g')"
proof -
  let ?scores = "map (fitness_at h (objects self)) (population self)"
  let ?si = "rev (np_argsort rt ?scores)"
  from assms(3) have "?scores \<noteq> []" by auto
  from np_argmax_ok[OF this] obtain bi where bi: "np_argmax ?scores = Inr bi" ..
  from assms(2) have len: "length ?si = length (population self)"
    and rng: "\<forall>i\<in>set ?si. i < length (population self)"
    by (auto simp: argsort_ok_def)
  from assms(4) len have "nat (elite_size self) \<le> length ?si" by simp
  from elitism_range_ok[OF this rng] obtain elites where
    el: "elitism_loop (population self) ?si [0..<nat (elite_size self)] [] = Inr elites"
    by blast
  have "\<forall>store g. \<exists>c g'. make_child rt h (self\<lparr>objects := store\<rparr>) g = Inr (c, g')"
  proof (intro allI)
    fix store g
    from assms(3) have "3 \<le> length (population (self\<lparr>objects := store\<rparr>))" by simp
    from make_child_ok[OF assms(1) this]
    show "\<exists>c g'. make_child rt h (self\<lparr>objects := store\<rparr>) g = Inr (c, g')" .
  qed
  from fill_loop_ok[OF this] obtain np g' where
    fl: "fill_loop rt h self elites g = Inr (np, g')" by blast
  obtain np1 st where np: "np = (np1, st)" by (cases np)
  show ?thesis unfolding generation_step_def Let_def bi sum.case el fl np by simp
qed

lemma stable_argsort_ok: "argsort_ok counter_runtime xs"
  by (auto simp: argsort_ok_def counter_runtime_def stable_argsort_def)

lemma counter_sample_ok: "sample_ok counter_runtime"
  by (simp add: sample_ok_def counter_runtime_def)

lemma make_child_crossover_small:
  assumes "length (population self) < 3" "fst (random_random rt g) < crossover_rate self"
  shows "make_child rt h self g =
           Inl (ValueError ''Sample larger than population or is negative'')"
proof -
  obtain r1 g1 where r1: "random_random rt g = (r1, g1)" by (cases "random_random rt g")
  with assms(2) have lt: "r1 < crossover_rate self" by simp
  show ?thesis
    unfolding make_child_def r1 prod.case
    by (simp add: lt select_parents_small[OF assms(1)])
qed



lemma generation_step_store:
  assumes "generation_step rt h self g = Inr (self', g')" "leaves_individuals h"
  shows "take (length (objects self)) (objects self') = objects self"
proof -
  from generation_step_Inr[OF assms(1)] obtain elites where
    fl: "fill_loop rt h self elites g = Inr ((population self', objects self'), g')" by blast
  from fill_loop_Inr[OF fl] assms(2) show ?thesis by blast
qed



lemma elites_of_generation:
  assumes ok: "argsort_ok rt (map (fitness_at h (objects self)) (population self))"
    and st: "generation_step rt h self g = Inr (self', g')"
  shows "length (elite_positions rt h self) = nat (elite_size self) \<and>
         distinct (elite_positions rt h self) \<and>
         (\<forall>i\<in>set (elite_positions rt h self). i < length (population self)) \<and>
         take (nat (elite_size self)) (population self') =
           map (\<lambda>i. population self ! i) (elite_positions rt h self) \<and>
         sorted_wrt (\<lambda>i j. fitness_at h (objects self) (population self ! j)
                           \<le> fitness_at h (objects self) (population self ! i))
           (elite_positions rt h self) \<and>
         (\<forall>i<length (population self). i \<notin> set (elite_positions rt h self) \<longrightarrow>
            (\<forall>j\<in>set (elite_positions rt h self).
               fitness_at h (objects self) (population self ! i)
                 \<le> fitness_at h (objects self) (population self ! j)))"
proof -
  let ?pop = "population self"
  let ?f = "fitness_at h (objects self)"
  let ?scores = "map ?f ?pop"
  let ?as = "np_argsort rt ?scores"
  let ?si = "rev ?as"
  let ?k = "nat (elite_size self)"
  let ?P = "\<lambda>i j. ?f (?pop ! j) \<le> ?f (?pop ! i)"
  have ep: "elite_positions rt h self = take ?k ?si" by (simp add: elite_positions_def)
  from ok have len: "length ?as = length ?pop" and dist: "distinct ?as"
    and set_as: "set ?as = {..<length ?pop}"
    and srt: "sorted (map (\<lambda>i. ?scores ! i) ?as)"
    by (simp_all add: argsort_ok_def)
  from generation_step_Inr[OF st] obtain elites where
    el: "elitism_loop ?pop ?si [0..<?k] [] = Inr elites"
    and fl: "fill_loop rt h self elites g = Inr ((population self', objects self'), g')"
    by blast
  from elitism_range_Inr[OF el] have k: "?k \<le> length ?si"
    and elites: "elites = map (\<lambda>i. ?pop ! i) (take ?k ?si)" by auto
  from fill_loop_Inr[OF fl] have tk: "take (length elites) (population self') = elites"
    by blast
  from elites k have le: "length elites = ?k" by simp
  have c1: "length (take ?k ?si) = ?k" using k by simp
  have c2: "distinct (take ?k ?si)" using dist by simp
  have in_range: "\<forall>i\<in>set ?si. i < length ?pop" using set_as by auto
  have c3: "\<forall>i\<in>set (take ?k ?si). i < length ?pop"
    using in_range by (meson in_set_takeD)
  have c4: "take ?k (population self') = map (\<lambda>i. ?pop ! i) (take ?k ?si)"
    using tk le elites by simp
  have "sorted_wrt (\<lambda>i j. ?scores ! i \<le> ?scores ! j) ?as"
    using srt by (simp add: sorted_wrt_map)
  then have "sorted_wrt (\<lambda>i j. ?f (?pop ! i) \<le> ?f (?pop ! j)) ?as"
    by (rule sorted_wrt_mono_rel[rotated]) (use set_as in auto)
  then have desc: "sorted_wrt ?P ?si" by (simp add: sorted_wrt_rev)
  then have c5: "sorted_wrt ?P (take ?k ?si)" by simp
  from desc have "sorted_wrt ?P (take ?k ?si @ drop ?k ?si)" by simp
  then have cross: "\<forall>x\<in>set (take ?k ?si). \<forall>y\<in>set (drop ?k ?si). ?P x y"
    unfolding sorted_wrt_append by blast
  have c6: "\<forall>i<length ?pop. i \<notin> set (take ?k ?si) \<longrightarrow>
              (\<forall>j\<in>set (take ?k ?si). ?f (?pop ! i) \<le> ?f (?pop ! j))"
  proof (intro allI impI ballI)
    fix i j assume i: "i < length ?pop" and ni: "i \<notin> set (take ?k ?si)"
      and j: "j \<in> set (take ?k ?si)"
    from i set_as have "i \<in> set ?si" by simp
    then have "i \<in> set (take ?k ?si @ drop ?k ?si)" by simp
    with ni have "i \<in> set (drop ?k ?si)" by (simp del: append_take_drop_id)
    with cross j show "?f (?pop ! i) \<le> ?f (?pop ! j)" by blast
  qed
  show ?thesis unfolding ep using c1 c2 c3 c4 c5 c6 by blast
qed



lemma store_prefix_nth:
  "take (length xs) ys = xs \<Longrightarrow> r < length xs \<Longrightarrow> ys ! r = xs ! r"
  by (metis nth_take)
subsection \<open>The concrete objects\<close>

lemma parabola_fields:
  "population parabola_strategy = [0, 1, 2, 3]" "objects parabola_strategy = [1, 2, 3, 4]"
  "elite_size parabola_strategy = 2" "population_size parabola_strategy = 4"
  "generations parabola_strategy = 3"
  by (simp_all add: parabola_strategy_def GeneticStrategy_init_def)

lemma small_fields:
  "population small_strategy = [0, 1]" "objects small_strategy = [1, 2]"
  "elite_size small_strategy = 1"
  "population_size small_strategy = 2" "crossover_rate small_strategy = 7 / 10"
  by (simp_all add: small_strategy_def GeneticStrategy_init_def)

lemma flat_fields:
  "population flat_strategy = [0, 1]" "objects flat_strategy = [''a'', ''b'']"
  "elite_size flat_strategy = 2"
  "population_size flat_strategy = 2" "best_individual flat_strategy = None"
  "fitness_history flat_strategy = []"
  by (simp_all add: flat_strategy_def GeneticStrategy_init_def)


lemma in_place_fields:
  "population in_place_strategy = [0, 1]" "objects in_place_strategy = [3, 1]"
  "elite_size in_place_strategy = 1" "population_size in_place_strategy = 2"
  "best_individual in_place_strategy = None" "fitness_history in_place_strategy = []"
  "crossover_rate in_place_strategy = 7 / 10" "mutation_rate in_place_strategy = 1 / 2"
  by (simp_all add: in_place_strategy_def GeneticStrategy_init_def)

lemma parabola_elite_positions:
  "elite_positions counter_runtime parabola_hooks parabola_strategy = [2, 3]"
  by (simp add: elite_positions_def parabola_fields counter_runtime_def stable_argsort_def
      parabola_hooks_def fitness_at_def upt_rec numeral_2_eq_2)

lemma parabola_leaves_individuals: "leaves_individuals parabola_hooks"
  by (simp add: leaves_individuals_def parabola_hooks_def)


subsection \<open>Population size\<close>




subsection \<open>Elitism\<close>

text \<open>
  Claim C5, as the code has it. In every generation that completes, the first
  \<open>elite_size\<close> members of the next population are the individuals at the positions
  \<open>np.argsort(fitness_scores)[::-1][:elite_size]\<close> of the current one: pairwise distinct
  positions, in descending order of fitness, and no individual at another position is
  fitter than any of them. They are the same objects, not copies; they are unmodified
  when \<open>crossover\<close> and \<open>mutate\<close> build new individuals and leave the ones they are handed
  as they are: then every individual that existed before the generation has the value it
  had. The order among equally fit elites is the reverse of the order numpy's argsort
  gives them, not the population order. The generation completes when the population has
  at least three and at least \<open>elite_size\<close> members.
\<close>

theorem elitism_copies_fittest:
  assumes "argsort_ok rt (map (fitness_at h (objects self)) (population self))"
  shows "(\<forall>self' g'. generation_step rt h self g = Inr (self', g') \<longrightarrow>
           length (elite_positions rt h self) = nat (elite_size self) \<and>
           distinct (elite_positions rt h self) \<and>
           (\<forall>i\<in>set (elite_positions rt h self). i < length (population self)) \<and>
           take (nat (elite_size self)) (population self') =
             map (\<lambda>i. population self ! i) (elite_positions rt h self) \<and>
           sorted_wrt (\<lambda>i j. fitness_at h (objects self) (population self ! j)
                             \<le> fitness_at h (objects self) (population self ! i))
             (elite_positions rt h self) \<and>
           (\<forall>i<length (population self). i \<notin> set (elite_positions rt h self) \<longrightarrow>
              (\<forall>j\<in>set (elite_positions rt h self).
                 fitness_at h (objects self) (population self ! i)
                   \<le> fitness_at h (objects self) (population self ! j))) \<and>
           (leaves_individuals h \<longrightarrow>
              (\<forall>r<length (objects self). objects self' ! r = objects self ! r)))
       \<and> (sample_ok rt \<and> 3 \<le> length (population self) \<and>
          nat (elite_size self) \<le> length (population self) \<longrightarrow>
          (\<exists>self' g'. generation_step rt h self g = Inr (self', g')))"
proof (intro conjI allI)
  fix self' g'
  show "generation_step rt h self g = Inr (self', g') \<longrightarrow>
           length (elite_positions rt h self) = nat (elite_size self) \<and>
           distinct (elite_positions rt h self) \<and>
           (\<forall>i\<in>set (elite_positions rt h self). i < length (population self)) \<and>
           take (nat (elite_size self)) (population self') =
             map (\<lambda>i. population self ! i) (elite_positions rt h self) \<and>
           sorted_wrt (\<lambda>i j. fitness_at h (objects self) (population self ! j)
                             \<le> fitness_at h (objects self) (population self ! i))
             (elite_positions rt h self) \<and>
           (\<forall>i<length (population self). i \<notin> set (elite_positions rt h self) \<longrightarrow>
              (\<forall>j\<in>set (elite_positions rt h self).
                 fitness_at h (objects self) (population self ! i)
                   \<le> fitness_at h (objects self) (population self ! j))) \<and>
           (leaves_individuals h \<longrightarrow>
              (\<forall>r<length (objects self). objects self' ! r = objects self ! r))"
  proof
    assume st: "generation_step rt h self g = Inr (self', g')"
    note e = elites_of_generation[OF assms st]
    have u: "leaves_individuals h \<longrightarrow>
              (\<forall>r<length (objects self). objects self' ! r = objects self ! r)"
    proof (intro impI allI)
      fix r
      assume l: "leaves_individuals h" and r: "r < length (objects self)"
      from store_prefix_nth[OF generation_step_store[OF st l] r]
      show "objects self' ! r = objects self ! r" .
    qed
    from e[THEN conjunct1] e[THEN conjunct2, THEN conjunct1]
      e[THEN conjunct2, THEN conjunct2, THEN conjunct1]
      e[THEN conjunct2, THEN conjunct2, THEN conjunct2, THEN conjunct1]
      e[THEN conjunct2, THEN conjunct2, THEN conjunct2, THEN conjunct2, THEN conjunct1]
      e[THEN conjunct2, THEN conjunct2, THEN conjunct2, THEN conjunct2, THEN conjunct2] u
    show "length (elite_positions rt h self) = nat (elite_size self) \<and>
           distinct (elite_positions rt h self) \<and>
           (\<forall>i\<in>set (elite_positions rt h self). i < length (population self)) \<and>
           take (nat (elite_size self)) (population self') =
             map (\<lambda>i. population self ! i) (elite_positions rt h self) \<and>
           sorted_wrt (\<lambda>i j. fitness_at h (objects self) (population self ! j)
                             \<le> fitness_at h (objects self) (population self ! i))
             (elite_positions rt h self) \<and>
           (\<forall>i<length (population self). i \<notin> set (elite_positions rt h self) \<longrightarrow>
              (\<forall>j\<in>set (elite_positions rt h self).
                 fitness_at h (objects self) (population self ! i)
                   \<le> fitness_at h (objects self) (population self ! j))) \<and>
           (leaves_individuals h \<longrightarrow>
              (\<forall>r<length (objects self). objects self' ! r = objects self ! r))"
      by (intro conjI)
  qed
next
  show "sample_ok rt \<and> 3 \<le> length (population self) \<and>
          nat (elite_size self) \<le> length (population self) \<longrightarrow>
          (\<exists>self' g'. generation_step rt h self g = Inr (self', g'))"
    using generation_step_ok[of rt h self g] assms by simp
qed

theorem elitism_copies_fittest_witness:
  "\<exists>self' g'. generation_step counter_runtime parabola_hooks parabola_strategy 0 = Inr (self', g')
     \<and> take 2 (population self') = [2, 3]
     \<and> objects self' ! 2 = 3 \<and> objects self' ! 3 = 4"
proof -
  note t = elitism_copies_fittest[OF stable_argsort_ok,
      of parabola_hooks parabola_strategy 0]
  from t counter_sample_ok obtain self' g' where
    st: "generation_step counter_runtime parabola_hooks parabola_strategy 0 = Inr (self', g')"
    by (auto simp: parabola_fields)
  with t have "take (nat (elite_size parabola_strategy)) (population self') =
      map (\<lambda>i. population parabola_strategy ! i)
        (elite_positions counter_runtime parabola_hooks parabola_strategy)" by blast
  then have a: "take 2 (population self') = [2, 3]"
    by (simp add: parabola_fields parabola_elite_positions)
  from t st parabola_leaves_individuals
  have "\<forall>r<length (objects parabola_strategy).
          objects self' ! r = objects parabola_strategy ! r" by blast
  then have "objects self' ! 2 = 3 \<and> objects self' ! 3 = 4"
    by (simp add: parabola_fields)
  with st a show ?thesis by blast
qed

text \<open>
  Two equally fit individuals \<open>a\<close>, \<open>b\<close>, both elites, under a stable argsort: the next
  generation holds them as \<open>b\<close>, \<open>a\<close>, not in their population order. And the
  individuals 3 and 1 with one elite, under a \<open>mutate\<close> that changes the individual it is
  handed: the elite 3 is cloned by \<open>random.choice\<close>, the clone is the elite itself, and
  after the mutation both members of the next generation are the one object, now 4.
\<close>

theorem elitism_counterexample:
  "generation_step counter_runtime flat_hooks flat_strategy 0 =
     Inr (flat_strategy\<lparr> best_individual := Some 0, fitness_history := [1],
                          population := [1, 0], objects := [''a'', ''b''] \<rparr>, 0)
   \<and> population flat_strategy = [0, 1]
   \<and> fitness_at flat_hooks (objects flat_strategy) 0
       = fitness_at flat_hooks (objects flat_strategy) 1
   \<and> generation_step counter_runtime in_place_hooks in_place_strategy 3 =
     Inr (in_place_strategy\<lparr> best_individual := Some 0, fitness_history := [- 2],
                              population := [0, 0], objects := [4, 1] \<rparr>, 6)
   \<and> elite_positions counter_runtime in_place_hooks in_place_strategy = [0]
   \<and> population in_place_strategy ! 0 = 0
   \<and> objects in_place_strategy ! 0 = 3"
proof -
  have a: "generation_step counter_runtime flat_hooks flat_strategy 0 =
     Inr (flat_strategy\<lparr> best_individual := Some 0, fitness_history := [1],
                          population := [1, 0], objects := [''a'', ''b''] \<rparr>, 0)"
    by (simp add: generation_step_def flat_fields flat_hooks_def counter_runtime_def
        fitness_at_def stable_argsort_def np_argmax_def np_mean_def upt_rec numeral_2_eq_2
        fill_loop.simps)
  have b: "fitness_at flat_hooks (objects flat_strategy) 0
       = fitness_at flat_hooks (objects flat_strategy) 1"
    by (simp add: fitness_at_def flat_hooks_def)
  have m: "4 mod Suc (Suc 0) = 0"
    by (simp only: numeral_2_eq_2[symmetric]) simp
  have mc: "make_child counter_runtime in_place_hooks in_place_strategy 3 =
              Inr ((0, [4, 1]), 6)"
    by (simp add: make_child_def counter_runtime_def in_place_fields in_place_hooks_def
        random_choice_def m)
  have fl: "fill_loop counter_runtime in_place_hooks in_place_strategy [0] 3 =
              Inr (([0, 0], [4, 1]), 6)"
    by (subst fill_loop.simps) (simp add: in_place_fields mc)
  have sc: "map (fitness_at in_place_hooks (objects in_place_strategy))
              (population in_place_strategy) = [0, - 4]"
    by (simp add: in_place_fields fitness_at_def in_place_hooks_def)
  have am: "np_argmax [0, - 4] = Inr 0" by (simp add: np_argmax_def)
  have si: "rev (np_argsort counter_runtime [0, - 4]) = [0, 1]"
    by (simp add: counter_runtime_def stable_argsort_def upt_rec numeral_2_eq_2)
  have el: "elitism_loop (population in_place_strategy) [0, 1]
              [0..<nat (elite_size in_place_strategy)] [] = Inr [0]"
    by (simp add: in_place_fields)
  have c: "generation_step counter_runtime in_place_hooks in_place_strategy 3 =
     Inr (in_place_strategy\<lparr> best_individual := Some 0, fitness_history := [- 2],
                              population := [0, 0], objects := [4, 1] \<rparr>, 6)"
    unfolding generation_step_def Let_def sc am si el fl sum.case prod.case
    by (simp add: in_place_fields np_mean_def)
  have d: "elite_positions counter_runtime in_place_hooks in_place_strategy = [0]"
    by (simp add: elite_positions_def in_place_fields counter_runtime_def stable_argsort_def
        in_place_hooks_def fitness_at_def upt_rec numeral_2_eq_2)
  from a b c d show ?thesis by (simp add: flat_fields in_place_fields)
qed

subsection \<open>Tournament selection\<close>

text \<open>
  Claim C10. On a population of fewer than three individuals \<open>select_parents\<close> raises the
  ValueError of \<open>random.sample\<close>. So a generation over such a (non-empty) population whose
  elitism step succeeds and leaves room for a child aborts with that error as soon as the
  draw \<open>random.random() < crossover_rate\<close> takes the crossover branch.
\<close>

theorem select_parents_small_population_raises:
  assumes "length pop < 3"
  shows "select_parents rt f pop g0 =
           Inl (ValueError ''Sample larger than population or is negative'')
       \<and> (length (population self) < 3 \<and> population self \<noteq> [] \<and>
          argsort_ok rt (map (fitness_at h (objects self)) (population self)) \<and>
          nat (elite_size self) \<le> length (population self) \<and>
          int (nat (elite_size self)) < population_size self \<and>
          fst (random_random rt g) < crossover_rate self \<longrightarrow>
          generation_step rt h self g =
            Inl (ValueError ''Sample larger than population or is negative''))"
proof (intro conjI impI)
  show "select_parents rt f pop g0 =
          Inl (ValueError ''Sample larger than population or is negative'')"
    by (rule select_parents_small[OF assms])
next
  let ?pop = "population self"
  let ?scores = "map (fitness_at h (objects self)) ?pop"
  let ?si = "rev (np_argsort rt ?scores)"
  let ?k = "nat (elite_size self)"
  assume a: "length ?pop < 3 \<and> ?pop \<noteq> [] \<and> argsort_ok rt ?scores \<and>
             ?k \<le> length ?pop \<and> int ?k < population_size self \<and>
             fst (random_random rt g) < crossover_rate self"
  then have a1: "length ?pop < 3" and a2: "?pop \<noteq> []"
    and a3: "argsort_ok rt ?scores" and a4: "?k \<le> length ?pop"
    and a5: "int ?k < population_size self"
    and a6: "fst (random_random rt g) < crossover_rate self" by blast+
  from a2 have "?scores \<noteq> []" by simp
  from np_argmax_ok[OF this] obtain bi where bi: "np_argmax ?scores = Inr bi" ..
  from a3 have len: "length ?si = length ?pop"
    and rng: "\<forall>i\<in>set ?si. i < length ?pop"
    by (auto simp: argsort_ok_def)
  from a4 len have k: "?k \<le> length ?si" by simp
  have el: "elitism_loop ?pop ?si [0..<?k] [] = Inr (map (\<lambda>i. ?pop ! i) (take ?k ?si))"
    by (rule elitism_range_ok[OF k rng])
  have lk: "length (map (\<lambda>i. ?pop ! i) (take ?k ?si)) = ?k" using k by simp
  from make_child_crossover_small[OF a1 a6, of h]
  have mc: "make_child rt h self g =
              Inl (ValueError ''Sample larger than population or is negative'')" .
  have fl: "fill_loop rt h self (map (\<lambda>i. ?pop ! i) (take ?k ?si)) g =
              Inl (ValueError ''Sample larger than population or is negative'')"
    using a5 by (subst fill_loop.simps) (simp only: lk mc, simp)
  show "generation_step rt h self g =
          Inl (ValueError ''Sample larger than population or is negative'')"
    unfolding generation_step_def Let_def bi sum.case el fl by simp
qed

theorem select_parents_small_population_raises_witness:
  "select_parents counter_runtime (evaluate_fitness parabola_hooks) [1, 2] 0 =
     Inl (ValueError ''Sample larger than population or is negative'')
   \<and> generation_step counter_runtime parabola_hooks small_strategy 0 =
     Inl (ValueError ''Sample larger than population or is negative'')"
proof -
  have r: "fst (random_random counter_runtime 0) < crossover_rate small_strategy"
    by (simp add: counter_runtime_def small_fields)
  show ?thesis
    using select_parents_small_population_raises[of "[1, 2]" counter_runtime
        "evaluate_fitness parabola_hooks" 0 small_strategy parabola_hooks 0]
      stable_argsort_ok r
    by (simp add: small_fields)
qed

text \<open>
  Claim C4, as the code has it. On a population of at least three individuals
  \<open>select_parents\<close> returns two parents. Each is the winner of a tournament of three
  individuals that \<open>random.sample\<close> takes at three pairwise distinct positions of the
  population (a draw without replacement); the winner is one of the three and none of
  the three is fitter. Both tournaments are drawn from the whole population, the second
  with the generator state the first left.
\<close>

theorem select_parents_tournaments:
  assumes "sample_ok rt" and "3 \<le> length pop"
  shows "\<exists>i1 g1 i2 g2 w1 w2.
           random_sample_positions rt (length pop) 3 g = (i1, g1) \<and>
           random_sample_positions rt (length pop) 3 g1 = (i2, g2) \<and>
           select_parents rt f pop g = Inr ([w1, w2], g2) \<and>
           length i1 = 3 \<and> distinct i1 \<and> w1 \<in> (\<lambda>i. pop ! i) ` set i1 \<and>
           (\<forall>i\<in>set i1. i < length pop \<and> f (pop ! i) \<le> f w1) \<and>
           length i2 = 3 \<and> distinct i2 \<and> w2 \<in> (\<lambda>i. pop ! i) ` set i2 \<and>
           (\<forall>i\<in>set i2. i < length pop \<and> f (pop ! i) \<le> f w2)"
proof -
  from select_parents_ok[OF assms, of g f] obtain i1 g1 i2 g2 w1 w2 where
    p1: "random_sample_positions rt (length pop) 3 g = (i1, g1)"
    and p2: "random_sample_positions rt (length pop) 3 g1 = (i2, g2)"
    and m1: "max_key f (map (\<lambda>i. pop ! i) i1) = Inr w1"
    and m2: "max_key f (map (\<lambda>i. pop ! i) i2) = Inr w2"
    and sp: "select_parents rt f pop g = Inr ([w1, w2], g2)" by blast
  from random_sample_ok[OF assms, of g] p1
  have s1: "length i1 = 3" "distinct i1" "\<forall>i\<in>set i1. i < length pop" by auto
  from random_sample_ok[OF assms, of g1] p2
  have s2: "length i2 = 3" "distinct i2" "\<forall>i\<in>set i2. i < length pop" by auto
  from max_key_winner[OF m1]
  have w1: "w1 \<in> (\<lambda>i. pop ! i) ` set i1" "\<forall>i\<in>set i1. f (pop ! i) \<le> f w1" by auto
  from max_key_winner[OF m2]
  have w2: "w2 \<in> (\<lambda>i. pop ! i) ` set i2" "\<forall>i\<in>set i2. f (pop ! i) \<le> f w2" by auto
  from p1 p2 sp s1 s2 w1 w2 show ?thesis by blast
qed

theorem select_parents_tournaments_witness:
  "\<exists>w1 w2 g2. select_parents counter_runtime (evaluate_fitness parabola_hooks) [1, 2, 3, 4] 0
       = Inr ([w1, w2], g2)"
  using select_parents_tournaments[OF counter_sample_ok,
      of "[1, 2, 3, 4]" 0 "evaluate_fitness parabola_hooks"]
  by simp blast

text \<open>
  A draw with replacement from the population 1, 2, 3 can be the tournament 1, 1, 1; no
  run of \<open>random.sample\<close> gives it, whatever the generator.
\<close>

theorem tournament_with_replacement_counterexample:
  "\<not> (\<exists>(rt :: nat runtime) g g'.
        sample_ok rt \<and> random_sample rt [1 :: int, 2, 3] 3 g = Inr ([1, 1, 1], g'))"
proof
  assume "\<exists>(rt :: nat runtime) g g'.
        sample_ok rt \<and> random_sample rt [1 :: int, 2, 3] 3 g = Inr ([1, 1, 1], g')"
  then obtain rt :: "nat runtime" and g g' where ok: "sample_ok rt"
    and rs: "random_sample rt [1 :: int, 2, 3] 3 g = Inr ([1, 1, 1], g')" by blast
  have "3 \<le> length [1 :: int, 2, 3]" by simp
  from random_sample_ok[OF ok this, of g] obtain idxs g1 where
    rs': "random_sample rt [1 :: int, 2, 3] 3 g = Inr (map (\<lambda>i. [1 :: int, 2, 3] ! i) idxs, g1)"
    and d: "distinct idxs" and r': "\<forall>i\<in>set idxs. i < length [1 :: int, 2, 3]" by blast
  from rs rs' have m: "map (\<lambda>i. [1 :: int, 2, 3] ! i) idxs = [1, 1, 1]" by simp
  from r' have r: "\<forall>i\<in>set idxs. i < 3" by (simp add: numeral_3_eq_3)
  from m obtain a b c where idxs: "idxs = [a, b, c]"
    by (auto simp: map_eq_Cons_conv)
  have zero: "[1 :: int, 2, 3] ! i = 1 \<Longrightarrow> i < 3 \<Longrightarrow> i = 0" for i :: nat
    by (cases i) (auto simp: nth_Cons' split: if_splits)
  from m r idxs have "a = 0" "b = 0" using zero by auto
  with d idxs show False by simp
qed

subsection \<open>set\_parameters\<close>

lemma set_parameters_plain:
  assumes "\<forall>k\<in>fst ` set params. plain_name k"
  shows "\<exists>self'. set_parameters py self params = Inr self' \<and>
           (\<forall>k. plain_name k \<longrightarrow> hasattr py self' k = hasattr py self k) \<and>
           (\<forall>k. k \<notin> fst ` set params \<longrightarrow> self' k = self k)"
  using assms
proof (induction params arbitrary: self)
  case Nil
  then show ?case by simp
next
  case (Cons p params)
  obtain key v where p: "p = (key, v)" by (cases p)
  from Cons.prems p have pk: "plain_name key" and rest: "\<forall>k\<in>fst ` set params. plain_name k"
    by auto
  show ?case
  proof (cases "hasattr py self key")
    case True
    let ?s = "self(key \<mapsto> v)"
    from Cons.IH[OF rest, of ?s] obtain self' where
      r: "set_parameters py ?s params = Inr self'"
      and h: "\<forall>k. plain_name k \<longrightarrow> hasattr py self' k = hasattr py ?s k"
      and o: "\<forall>k. k \<notin> fst ` set params \<longrightarrow> self' k = ?s k" by blast
    from True pk have hs: "plain_name k \<Longrightarrow> hasattr py ?s k = hasattr py self k" for k
      by (auto simp: hasattr_def)
    from True pk r have "set_parameters py self (p # params) = Inr self'"
      unfolding p by (simp add: setattr_def)
    moreover from h hs have "\<forall>k. plain_name k \<longrightarrow> hasattr py self' k = hasattr py self k"
      by simp
    moreover from o have "\<forall>k. k \<notin> fst ` set (p # params) \<longrightarrow> self' k = self k"
      unfolding p by auto
    ultimately show ?thesis by blast
  next
    case False
    from Cons.IH[OF rest, of self] obtain self' where
      r: "set_parameters py self params = Inr self'"
      and h: "\<forall>k. plain_name k \<longrightarrow> hasattr py self' k = hasattr py self k"
      and o: "\<forall>k. k \<notin> fst ` set params \<longrightarrow> self' k = self k" by blast
    from False r have "set_parameters py self (p # params) = Inr self'"
      unfolding p by simp
    moreover from o have "\<forall>k. k \<notin> fst ` set (p # params) \<longrightarrow> self' k = self k"
      unfolding p by auto
    ultimately show ?thesis using h by blast
  qed
qed

lemma set_parameters_stored:
  assumes "distinct (map fst params)" "\<forall>k\<in>fst ` set params. plain_name k"
    and "set_parameters py self params = Inr self'"
  shows "\<forall>(k, v)\<in>set params.
           if hasattr py self k then self' k = Some v else self' k = None"
  using assms
proof (induction params arbitrary: self)
  case Nil
  then show ?case by simp
next
  case (Cons p params)
  obtain key v where p: "p = (key, v)" by (cases p)
  from Cons.prems(1) p have d: "distinct (map fst params)" and nk: "key \<notin> fst ` set params"
    by auto
  from Cons.prems(2) p have pk: "plain_name key"
    and rest: "\<forall>k\<in>fst ` set params. plain_name k" by auto
  let ?s = "if hasattr py self key then self(key \<mapsto> v) else self"
  from Cons.prems(3) pk have r: "set_parameters py ?s params = Inr self'"
    unfolding p by (simp add: setattr_def split: if_splits)
  from set_parameters_plain[OF rest, of py ?s] r
  have o: "\<forall>k. k \<notin> fst ` set params \<longrightarrow> self' k = ?s k" by simp
  have hs: "plain_name k \<Longrightarrow> hasattr py ?s k = hasattr py self k" for k
    using pk by (auto simp: hasattr_def)
  have here: "if hasattr py self key then self' key = Some v else self' key = None"
  proof (cases "hasattr py self key")
    case True
    with o nk show ?thesis by simp
  next
    case False
    with pk have "self key = None" by (simp add: hasattr_def)
    with False o nk show ?thesis by simp
  qed
  from Cons.IH[OF d rest r]
  have "\<forall>(k, v)\<in>set params. if hasattr py ?s k then self' k = Some v else self' k = None" .
  with rest hs
  have there: "\<forall>(k, v)\<in>set params.
                 if hasattr py self k then self' k = Some v else self' k = None"
    by fastforce
  from here there show ?case unfolding p by simp
qed

text \<open>
  Claim C9, as the code has it. \<open>set_parameters\<close> checks no bound and no category. For a
  parameter dictionary (keys pairwise distinct) whose keys do not start with an
  underscore, whatever the values: the call returns; every value whose key names an
  attribute of the object is stored in that attribute as it is given; a key that names no
  attribute is ignored and names none afterwards; and the attributes under other names
  are left alone. On a name that starts with an underscore the outcome is the
  interpreter's (assigning \<open>__dict__\<close> replaces every attribute, assigning \<open>__class__\<close>
  can raise TypeError), and is no bound check either.
\<close>

theorem set_parameters_stores_unchecked:
  assumes "distinct (map fst params)" and "\<forall>k\<in>fst ` set params. plain_name k"
  shows "\<exists>self'. set_parameters py self params = Inr self' \<and>
           (\<forall>(k, v)\<in>set params. hasattr py self k \<longrightarrow> self' k = Some v) \<and>
           (\<forall>(k, v)\<in>set params. \<not> hasattr py self k \<longrightarrow> self' k = None) \<and>
           (\<forall>k. k \<notin> fst ` set params \<longrightarrow> self' k = self k)"
proof -
  from set_parameters_plain[OF assms(2), of py self] obtain self' where
    r: "set_parameters py self params = Inr self'"
    and o: "\<forall>k. k \<notin> fst ` set params \<longrightarrow> self' k = self k" by blast
  note s = set_parameters_stored[OF assms r]
  from s have a: "\<forall>(k, v)\<in>set params. hasattr py self k \<longrightarrow> self' k = Some v"
    by (auto split: if_splits)
  from s have b: "\<forall>(k, v)\<in>set params. \<not> hasattr py self k \<longrightarrow> self' k = None"
    by (auto split: if_splits)
  from r a b o show ?thesis by blast
qed

theorem set_parameters_stores_unchecked_witness:
  "\<forall>py. \<exists>self'.
     set_parameters py (GeneticStrategy_init_attributes ''TEST'' 100 50 (1 / 10) (7 / 10) 5)
       [(''generations'', PInt 20), (''window'', PInt 14)] = Inr self'
     \<and> self' ''generations'' = Some (PInt 20) \<and> self' ''window'' = None
     \<and> self' ''elite_size'' = Some (PInt 5)"
proof
  fix py
  let ?self = "GeneticStrategy_init_attributes ''TEST'' 100 50 (1 / 10) (7 / 10) 5"
  let ?params = "[(''generations'', PInt 20), (''window'', PInt 14)]"
  have d: "distinct (map fst ?params)" by simp
  have pl: "\<forall>k\<in>fst ` set ?params. plain_name k" by (simp add: plain_name_def)
  have h1: "hasattr py ?self ''generations''"
    by (simp add: hasattr_def plain_name_def GeneticStrategy_init_attributes_def)
  have h2: "\<not> hasattr py ?self ''window''"
    by (simp add: hasattr_def plain_name_def GeneticStrategy_init_attributes_def
        class_attributes_def)
  have e: "?self ''elite_size'' = Some (PInt 5)"
    by (simp add: GeneticStrategy_init_attributes_def)
  from set_parameters_stores_unchecked[OF d pl, of py ?self] obtain self' where
    r: "set_parameters py ?self ?params = Inr self'"
    and a: "\<forall>(k, v)\<in>set ?params. hasattr py ?self k \<longrightarrow> self' k = Some v"
    and b: "\<forall>(k, v)\<in>set ?params. \<not> hasattr py ?self k \<longrightarrow> self' k = None"
    and o: "\<forall>k. k \<notin> fst ` set ?params \<longrightarrow> self' k = ?self k" by blast
  from a h1 have "self' ''generations'' = Some (PInt 20)" by simp
  moreover from b h2 have "self' ''window'' = None" by simp
  moreover from o e have "self' ''elite_size'' = Some (PInt 5)" by simp
  ultimately show "\<exists>self'. set_parameters py ?self ?params = Inr self'
     \<and> self' ''generations'' = Some (PInt 20) \<and> self' ''window'' = None
     \<and> self' ''elite_size'' = Some (PInt 5)" using r by blast
qed

text \<open>
  A mutation rate of 7.5 (outside \<open>[0, 1]\<close>) and an elite size of 500 over a population of
  100 are accepted and stored.
\<close>

theorem set_parameters_out_of_bounds_counterexample:
  "\<forall>py. set_parameters py (GeneticStrategy_init_attributes ''TEST'' 100 50 (1 / 10) (7 / 10) 5)
       [(''mutation_rate'', PFloat (15 / 2)), (''elite_size'', PInt 500)]
     = Inr ((GeneticStrategy_init_attributes ''TEST'' 100 50 (1 / 10) (7 / 10) 5)
              (''mutation_rate'' \<mapsto> PFloat (15 / 2), ''elite_size'' \<mapsto> PInt 500))"
  by (simp add: hasattr_def setattr_def plain_name_def GeneticStrategy_init_attributes_def)
section \<open>Properties of the metrics\<close>

subsection \<open>Profit factor\<close>

lemma flt_zero_cases: "flt x (Fin 0) \<longleftrightarrow> (\<exists>a. x = Fin a \<and> a < 0) \<or> x = NInf"
  by (cases x) auto

lemma foldl_fadd_negative:
  assumes "\<forall>x\<in>set xs. flt x (Fin 0)" "flt acc (Fin 0) \<or> acc = Fin 0" "xs \<noteq> []"
  shows "flt (foldl fadd acc xs) (Fin 0)"
  using assms
proof (induction xs arbitrary: acc)
  case Nil
  then show ?case by simp
next
  case (Cons x xs)
  from Cons.prems have x: "flt x (Fin 0)" by simp
  have step: "flt (fadd acc x) (Fin 0)"
    using x Cons.prems(2) by (auto simp: flt_zero_cases)
  show ?case
  proof (cases "xs = []")
    case True
    with step show ?thesis by simp
  next
    case False
    with Cons.IH[of "fadd acc x"] Cons.prems(1) step show ?thesis by simp
  qed
qed

lemma dropna_negative: "dropna (filter (\<lambda>x. flt x (Fin 0)) xs) = filter (\<lambda>x. flt x (Fin 0)) xs"
  by (induction xs) (auto simp: dropna_def)

lemma gross_loss_zero_iff: "gross_loss tr = Fin 0 \<longleftrightarrow> (\<forall>x\<in>set tr. \<not> flt x (Fin 0))"
proof
  assume z: "gross_loss tr = Fin 0"
  show "\<forall>x\<in>set tr. \<not> flt x (Fin 0)"
  proof (rule ccontr)
    assume "\<not> (\<forall>x\<in>set tr. \<not> flt x (Fin 0))"
    then have ne: "filter (\<lambda>x. flt x (Fin 0)) tr \<noteq> []" by (auto simp: filter_empty_conv)
    have "flt (foldl fadd (Fin 0) (filter (\<lambda>x. flt x (Fin 0)) tr)) (Fin 0)"
      by (rule foldl_fadd_negative) (use ne in auto)
    then have "flt (series_sum (filter (\<lambda>x. flt x (Fin 0)) tr)) (Fin 0)"
      by (simp add: series_sum_def dropna_negative)
    then have "gross_loss tr \<noteq> Fin 0"
      by (auto simp: gross_loss_def flt_zero_cases)
    with z show False by simp
  qed
next
  assume "\<forall>x\<in>set tr. \<not> flt x (Fin 0)"
  then have "filter (\<lambda>x. flt x (Fin 0)) tr = []" by (auto simp: filter_empty_conv)
  then show "gross_loss tr = Fin 0" by (simp add: gross_loss_def series_sum_def dropna_def)
qed

lemma profit_factor_total: "\<exists>v. calculate_profit_factor df = Inr v"
  by (simp add: calculate_profit_factor_def Let_def split: option.splits)

text \<open>
  Claim C7, as the code has it. \<open>calculate_profit_factor\<close> never raises. On a
  non-empty \<open>trade_returns\<close> column whose losses sum to zero it returns positive
  infinity, whatever the gains; the losses sum to zero exactly when no trade return is
  negative. When the column is absent or empty it returns 0.0, not infinity.
\<close>

theorem profit_factor_zero_losses:
  "(\<exists>v. calculate_profit_factor df = Inr v)
   \<and> (df ''trade_returns'' = None \<or> df ''trade_returns'' = Some [] \<longrightarrow>
        calculate_profit_factor df = Inr (Fin 0))
   \<and> (\<forall>tr. df ''trade_returns'' = Some tr \<and> tr \<noteq> [] \<and> gross_loss tr = Fin 0 \<longrightarrow>
        calculate_profit_factor df = Inr PInf)
   \<and> (\<forall>tr. gross_loss tr = Fin 0 \<longleftrightarrow> (\<forall>x\<in>set tr. \<not> flt x (Fin 0)))"
proof (intro conjI allI impI)
  show "\<exists>v. calculate_profit_factor df = Inr v" by (rule profit_factor_total)
next
  assume "df ''trade_returns'' = None \<or> df ''trade_returns'' = Some []"
  then show "calculate_profit_factor df = Inr (Fin 0)"
    by (auto simp: calculate_profit_factor_def)
next
  fix tr
  assume "df ''trade_returns'' = Some tr \<and> tr \<noteq> [] \<and> gross_loss tr = Fin 0"
  then show "calculate_profit_factor df = Inr PInf"
    by (simp add: calculate_profit_factor_def Let_def fne_def)
next
  fix tr
  show "gross_loss tr = Fin 0 \<longleftrightarrow> (\<forall>x\<in>set tr. \<not> flt x (Fin 0))"
    by (rule gross_loss_zero_iff)
qed

theorem profit_factor_zero_losses_witness:
  "calculate_profit_factor [''trade_returns'' \<mapsto> [Fin (1 / 10), Fin 0, Fin 250]] = Inr PInf"
proof -
  have "gross_loss [Fin (1 / 10), Fin 0, Fin 250] = Fin 0"
    by (simp add: gross_loss_def series_sum_def dropna_def)
  with profit_factor_zero_losses[of "[''trade_returns'' \<mapsto> [Fin (1 / 10), Fin 0, Fin 250]]"]
  show ?thesis by simp
qed

text \<open>
  Without the column, and with an empty column (whose losses sum to zero), the result is
  0.0.
\<close>

theorem profit_factor_absent_counterexample:
  "calculate_profit_factor Map.empty = Inr (Fin 0)
   \<and> calculate_profit_factor [''trade_returns'' \<mapsto> []] = Inr (Fin 0)
   \<and> gross_loss [] = Fin 0"
  by (simp add: calculate_profit_factor_def gross_loss_def series_sum_def dropna_def)

subsection \<open>Maximum drawdown\<close>

lemma running_peak_0: "running_peak (c # cs) 0 = c"
  by (simp add: running_peak_def)

lemma running_peak_Suc:
  "i < length cs \<Longrightarrow> running_peak (c # cs) (Suc i) = max c (running_peak cs i)"
proof -
  assume "i < length cs"
  then have "set (take (Suc i) cs) \<noteq> {}" by (cases cs) auto
  then show ?thesis by (simp add: running_peak_def)
qed

lemma expanding_max_from_Fin:
  "expanding_max_from (Fin m) (map Fin cs) =
     map (\<lambda>i. Fin (max m (running_peak cs i))) [0..<length cs]"
proof (induction cs arbitrary: m)
  case Nil
  then show ?case by simp
next
  case (Cons c cs)
  have nm: "nanmax (Fin m) (Fin c) = Fin (max m c)" by (simp add: nanmax_def max_def)
  have "map (\<lambda>i. Fin (max m (running_peak (c # cs) i))) [0..<length (c # cs)] =
        Fin (max m c) # map (\<lambda>i. Fin (max m (running_peak (c # cs) (Suc i)))) [0..<length cs]"
    by (simp add: map_upt_Suc running_peak_0 del: upt_Suc)
  also have "map (\<lambda>i. Fin (max m (running_peak (c # cs) (Suc i)))) [0..<length cs] =
             map (\<lambda>i. Fin (max (max m c) (running_peak cs i))) [0..<length cs]"
    by (rule map_cong) (auto simp: running_peak_Suc max.assoc)
  finally show ?case by (simp add: nm Cons.IH)
qed

lemma expanding_max_Fin:
  "expanding_max (map Fin cs) = map (\<lambda>i. Fin (running_peak cs i)) [0..<length cs]"
proof (cases cs)
  case Nil
  then show ?thesis by (simp add: expanding_max_def)
next
  case (Cons c cs')
  have "expanding_max (map Fin (c # cs')) = Fin c # expanding_max_from (Fin c) (map Fin cs')"
    by (simp add: expanding_max_def nanmax_def)
  also have "\<dots> = Fin c # map (\<lambda>i. Fin (max c (running_peak cs' i))) [0..<length cs']"
    by (simp add: expanding_max_from_Fin)
  also have "map (\<lambda>i. Fin (max c (running_peak cs' i))) [0..<length cs'] =
             map (\<lambda>i. Fin (running_peak (c # cs') (Suc i))) [0..<length cs']"
    by (rule map_cong) (auto simp: running_peak_Suc)
  also have "Fin c # \<dots> = map (\<lambda>i. Fin (running_peak (c # cs') i)) [0..<length (c # cs')]"
    by (simp add: map_upt_Suc running_peak_0 del: upt_Suc)
  finally show ?thesis using Cons by simp
qed

lemma running_peak_ge: "i < length cs \<Longrightarrow> cs ! i \<le> running_peak cs i"
proof -
  assume i: "i < length cs"
  have "take (Suc i) cs ! i = cs ! i" by simp
  moreover have "i < length (take (Suc i) cs)" using i by simp
  ultimately have "cs ! i \<in> set (take (Suc i) cs)" by (metis nth_mem)
  then show ?thesis by (simp add: running_peak_def)
qed

lemma running_peak_pos:
  assumes "\<forall>c\<in>set cs. 0 < c" "i < length cs"
  shows "0 < running_peak cs i"
proof -
  from assms(2) have "cs ! i \<le> running_peak cs i" by (rule running_peak_ge)
  moreover from assms have "0 < cs ! i" by simp
  ultimately show ?thesis by simp
qed

lemma series_min_Fin:
  assumes "ds \<noteq> []"
  shows "series_min (map Fin ds) = Fin (Min (set ds))"
proof -
  have dn: "dropna (map Fin ds) = map Fin ds" by (induction ds) (auto simp: dropna_def)
  have fo: "fold (\<lambda>x m. if flt x m then x else m) (map Fin vs) (Fin v) = Fin (fold min vs v)"
    for vs v
    by (induction vs arbitrary: v) (auto simp: min_def)
  from assms obtain v vs where ds: "ds = v # vs" by (cases ds) auto
  from dn ds have "dropna (map Fin ds) = Fin v # map Fin vs" by simp
  then show ?thesis unfolding series_min_def ds
    by (simp add: fo Min.set_eq_fold del: set_simps)
qed

lemma drawdowns_Fin:
  assumes "\<forall>c\<in>set cs. 0 < c"
  shows "map (\<lambda>(c, m). fsub (fdiv c m) (Fin 1)) (zip (map Fin cs) (expanding_max (map Fin cs)))
         = map Fin (spec_drawdowns cs)"
proof (rule nth_equalityI)
  show "length (map (\<lambda>(c, m). fsub (fdiv c m) (Fin 1))
          (zip (map Fin cs) (expanding_max (map Fin cs)))) = length (map Fin (spec_drawdowns cs))"
    by (simp add: expanding_max_Fin spec_drawdowns_def)
next
  fix i
  assume "i < length (map (\<lambda>(c, m). fsub (fdiv c m) (Fin 1))
          (zip (map Fin cs) (expanding_max (map Fin cs))))"
  then have i: "i < length cs" by (simp add: expanding_max_Fin)
  from running_peak_pos[OF assms i] have p: "running_peak cs i \<noteq> 0" by simp
  have "cs ! i / running_peak cs i - 1 = (cs ! i - running_peak cs i) / running_peak cs i"
    using p by (simp add: field_simps)
  then show "map (\<lambda>(c, m). fsub (fdiv c m) (Fin 1))
          (zip (map Fin cs) (expanding_max (map Fin cs))) ! i = map Fin (spec_drawdowns cs) ! i"
    using i p by (simp add: expanding_max_Fin spec_drawdowns_def fsub_def)
qed

lemma compound_Cons:
  "compound (r # rs) = (1 + r) # map (\<lambda>c. (1 + r) * c) (compound rs)"
  unfolding compound_def length_Cons map_upt_Suc by (simp add: comp_def)

lemma compound_scaled:
  "map (\<lambda>c. a * c) (map (\<lambda>c. b * c) cs) = map (\<lambda>c. (a * b) * c) (cs :: real list)"
  by (simp add: mult.assoc)

lemma cumprod_from_observed:
  assumes "admissible_returns returns" "0 < p"
  shows "dropna (cumprod_from (Fin p) (map (\<lambda>r. fadd (Fin 1) r) returns)) =
           map (\<lambda>c. Fin (p * c)) (compound (observed_returns returns))
       \<and> (\<forall>x\<in>set (cumprod_from (Fin p) (map (\<lambda>r. fadd (Fin 1) r) returns)).
            x = NaN \<or> (\<exists>c. x = Fin c \<and> 0 < c))"
  using assms
proof (induction returns arbitrary: p rule: admissible_returns.induct)
  case 1
  then show ?case by (simp add: dropna_def compound_def)
next
  case (2 r xs)
  from "2.prems" have r: "- 1 < r" and adm: "admissible_returns xs" by simp_all
  from r "2.prems"(2) have q: "0 < p * (1 + r)" by simp
  note ih = "2.IH"[OF adm q]
  have st: "cumprod_from (Fin p) (map (\<lambda>r. fadd (Fin 1) r) (Fin r # xs)) =
              Fin (p * (1 + r))
                # cumprod_from (Fin (p * (1 + r))) (map (\<lambda>r. fadd (Fin 1) r) xs)"
    by simp
  have a: "dropna (cumprod_from (Fin p) (map (\<lambda>r. fadd (Fin 1) r) (Fin r # xs))) =
             map (\<lambda>c. Fin (p * c)) (compound (observed_returns (Fin r # xs)))"
    unfolding st using ih[THEN conjunct1]
    by (simp add: dropna_def compound_Cons comp_def mult.assoc)
  have b: "\<forall>x\<in>set (cumprod_from (Fin p) (map (\<lambda>r. fadd (Fin 1) r) (Fin r # xs))).
            x = NaN \<or> (\<exists>c. x = Fin c \<and> 0 < c)"
    unfolding st using ih[THEN conjunct2] q by simp
  from a b show ?case by (rule conjI)
next
  case (3 xs)
  from "3.prems" have adm: "admissible_returns xs" by simp
  note ih = "3.IH"[OF adm "3.prems"(2)]
  have st: "cumprod_from (Fin p) (map (\<lambda>r. fadd (Fin 1) r) (NaN # xs)) =
              NaN # cumprod_from (Fin p) (map (\<lambda>r. fadd (Fin 1) r) xs)"
    by simp
  have a: "dropna (cumprod_from (Fin p) (map (\<lambda>r. fadd (Fin 1) r) (NaN # xs))) =
             map (\<lambda>c. Fin (p * c)) (compound (observed_returns (NaN # xs)))"
    unfolding st using ih[THEN conjunct1] by (simp add: dropna_def)
  have b: "\<forall>x\<in>set (cumprod_from (Fin p) (map (\<lambda>r. fadd (Fin 1) r) (NaN # xs))).
            x = NaN \<or> (\<exists>c. x = Fin c \<and> 0 < c)"
    unfolding st using ih[THEN conjunct2] by simp
  from a b show ?case by (rule conjI)
qed simp_all

lemma drawdowns_skip_missing:
  assumes "\<forall>x\<in>set xs. x = NaN \<or> (\<exists>c. x = Fin c \<and> 0 < c)"
    and "m = NaN \<or> (\<exists>a. m = Fin a)"
  shows "dropna (map (\<lambda>(c, m). fsub (fdiv c m) (Fin 1)) (zip xs (expanding_max_from m xs))) =
           map (\<lambda>(c, m). fsub (fdiv c m) (Fin 1))
             (zip (dropna xs) (expanding_max_from m (dropna xs)))"
  using assms
proof (induction xs arbitrary: m)
  case Nil
  then show ?case by (simp add: dropna_def)
next
  case (Cons x xs)
  from Cons.prems(1) have rest: "\<forall>x\<in>set xs. x = NaN \<or> (\<exists>c. x = Fin c \<and> 0 < c)" by simp
  show ?case
  proof (cases "x = NaN")
    case True
    from Cons.prems(2) have nm: "nanmax m NaN = m" by (auto simp: nanmax_def)
    from Cons.IH[OF rest Cons.prems(2)] show ?thesis
      unfolding True by (simp add: dropna_def nm fsub_def)
  next
    case False
    with Cons.prems(1) obtain c where x: "x = Fin c" and c: "0 < c" by auto
    from Cons.prems(2) have "\<exists>a. nanmax m (Fin c) = Fin a"
      by (auto simp: nanmax_def)
    then obtain a where nm: "nanmax m (Fin c) = Fin a" ..
    have "fdiv (Fin c) (Fin a) = Fin (c / a) \<or> fdiv (Fin c) (Fin a) = PInf"
      using c by simp
    then have dd: "fsub (fdiv (Fin c) (Fin a)) (Fin 1) \<noteq> NaN"
      by (auto simp: fsub_def)
    have m': "Fin a = NaN \<or> (\<exists>b. Fin a = Fin b)" by simp
    from Cons.IH[OF rest m'] show ?thesis
      unfolding x using dd by (simp add: dropna_def nm)
  qed
qed

lemma series_min_dropna: "series_min (dropna xs) = series_min xs"
  by (simp add: series_min_def dropna_def)

lemma compound_pos:
  assumes "admissible_returns returns"
  shows "\<forall>c\<in>set (compound (observed_returns returns)). 0 < c"
proof
  fix c assume c: "c \<in> set (compound (observed_returns returns))"
  have one: "(0 :: real) < 1" by simp
  note cp = cumprod_from_observed[OF assms one]
  from cp[THEN conjunct1]
  have "dropna (cumprod_from (Fin 1) (map (\<lambda>r. fadd (Fin 1) r) returns)) =
          map Fin (compound (observed_returns returns))" by simp
  with c
  have "Fin c \<in> set (dropna (cumprod_from (Fin 1) (map (\<lambda>r. fadd (Fin 1) r) returns)))"
    by simp
  then have "Fin c \<in> set (cumprod_from (Fin 1) (map (\<lambda>r. fadd (Fin 1) r) returns))"
    by (simp add: dropna_def)
  with cp[THEN conjunct2] show "0 < c" by auto
qed

lemma max_drawdown_spec:
  assumes "df ''returns'' = Some returns"
    and "admissible_returns returns" and "observed_returns returns \<noteq> []"
  shows "calculate_max_drawdown df =
           Inr (Fin (spec_max_drawdown (compound (observed_returns returns))))"
proof -
  let ?cs = "compound (observed_returns returns)"
  let ?xs = "cumulative_returns returns"
  let ?dd = "\<lambda>(c, m). fsub (fdiv c m) (Fin 1)"
  have one: "(0 :: real) < 1" by simp
  note cp = cumprod_from_observed[OF assms(2) one]
  have dx: "dropna ?xs = map Fin ?cs"
    using cp[THEN conjunct1] by (simp add: cumulative_returns_def cumprod_def)
  have vx: "\<forall>x\<in>set ?xs. x = NaN \<or> (\<exists>c. x = Fin c \<and> 0 < c)"
    using cp[THEN conjunct2] by (simp add: cumulative_returns_def cumprod_def)
  have pos: "\<forall>c\<in>set ?cs. 0 < c" by (rule compound_pos[OF assms(2)])
  have "dropna (map ?dd (zip ?xs (expanding_max ?xs))) =
          map ?dd (zip (dropna ?xs) (expanding_max (dropna ?xs)))"
    unfolding expanding_max_def by (rule drawdowns_skip_missing[OF vx]) simp
  also have "\<dots> = map Fin (spec_drawdowns ?cs)"
    unfolding dx by (rule drawdowns_Fin[OF pos])
  finally have dn: "dropna (map ?dd (zip ?xs (expanding_max ?xs))) =
                      map Fin (spec_drawdowns ?cs)" .
  from assms(3) have "?cs \<noteq> []" by (simp add: compound_def)
  then have ne: "spec_drawdowns ?cs \<noteq> []" by (simp add: spec_drawdowns_def)
  have "series_min (map ?dd (zip ?xs (expanding_max ?xs))) =
          Fin (Min (set (spec_drawdowns ?cs)))"
    unfolding series_min_dropna[symmetric, of "map ?dd (zip ?xs (expanding_max ?xs))"] dn
    by (rule series_min_Fin[OF ne])
  then show ?thesis
    unfolding calculate_max_drawdown_def assms(1) option.case Let_def
    by (simp add: spec_max_drawdown_def)
qed

lemma running_peak_sorted:
  assumes "sorted cs" "i < length cs"
  shows "running_peak cs i = cs ! i"
proof -
  have "cs ! i \<in> set (take (Suc i) cs)"
    using assms(2) by (metis length_take lessI min_less_iff_conj nth_mem nth_take)
  moreover have "\<forall>y\<in>set (take (Suc i) cs). y \<le> cs ! i"
  proof
    fix y assume "y \<in> set (take (Suc i) cs)"
    then obtain j where j: "j < length (take (Suc i) cs)" "take (Suc i) cs ! j = y"
      by (auto simp: in_set_conv_nth)
    then have "j \<le> i" "y = cs ! j" by auto
    with assms show "y \<le> cs ! i" by (simp add: sorted_nth_mono)
  qed
  ultimately show ?thesis unfolding running_peak_def by (intro Max_eqI) auto
qed

lemma spec_max_drawdown_sorted:
  assumes "sorted cs" "cs \<noteq> []"
  shows "spec_max_drawdown cs = 0"
proof -
  have "spec_drawdowns cs = map (\<lambda>i. 0) [0..<length cs]"
    unfolding spec_drawdowns_def
    by (rule map_cong) (auto simp: running_peak_sorted[OF assms(1)])
  moreover have "set (map (\<lambda>i. 0::real) [0..<length cs]) = {0}"
    using assms(2) by (cases cs) (simp_all add: image_constant_conv)
  ultimately show ?thesis by (simp add: spec_max_drawdown_def)
qed

lemma spec_max_drawdown_half:
  assumes "\<forall>c\<in>set cs. 0 < c"
    and "\<exists>i<length cs. cs ! i = running_peak cs i / 2"
    and "\<forall>i<length cs. running_peak cs i / 2 \<le> cs ! i"
  shows "spec_max_drawdown cs = 1 / 2"
proof -
  let ?d = "\<lambda>i. (cs ! i - running_peak cs i) / running_peak cs i"
  have "Min (set (spec_drawdowns cs)) = - (1 / 2)"
  proof (rule Min_eqI)
    show "finite (set (spec_drawdowns cs))" by simp
  next
    fix y assume "y \<in> set (spec_drawdowns cs)"
    then obtain i where i: "i < length cs" and y: "y = ?d i"
      by (auto simp: spec_drawdowns_def)
    from running_peak_pos[OF assms(1) i] have p: "0 < running_peak cs i" .
    from assms(3) i have "running_peak cs i / 2 \<le> cs ! i" by simp
    then have "- (1 / 2) * running_peak cs i \<le> cs ! i - running_peak cs i" by simp
    then have "- (1 / 2) \<le> ?d i" by (simp only: pos_le_divide_eq[OF p])
    then show "- (1 / 2) \<le> y" using y by simp
  next
    from assms(2) obtain i where i: "i < length cs" and h: "cs ! i = running_peak cs i / 2"
      by blast
    from running_peak_pos[OF assms(1) i] have p: "0 < running_peak cs i" .
    have "?d i = - (1 / 2)" using p h by (simp add: field_simps)
    moreover have "?d i \<in> set (spec_drawdowns cs)"
      using i by (auto simp: spec_drawdowns_def)
    ultimately show "- (1 / 2) \<in> set (spec_drawdowns cs)" by simp
  qed
  then show ?thesis by (simp add: spec_max_drawdown_def)
qed

text \<open>
  Claim C8, as the code has it. The value series of \<open>calculate_max_drawdown\<close> is
  \<open>(1 + returns).cumprod()\<close>: the running product over the returns that are not missing,
  which starts at one plus the first return; the value 1 before the first period is no
  peak of it. On a record with at least one return, each return missing or a finite
  number above \<open>-1\<close>, the function returns the magnitude of the most negative drawdown
  \<open>(value - running peak) / running peak\<close> of that series, the running peak taken over
  the expanding window. It is 0 when the series never decreases, and 0.5 when the series
  falls to half of its running peak and never lower.
\<close>

theorem max_drawdown_magnitude:
  assumes "df ''returns'' = Some returns"
    and "admissible_returns returns" and "observed_returns returns \<noteq> []"
  shows "calculate_max_drawdown df =
           Inr (Fin (spec_max_drawdown (compound (observed_returns returns))))
       \<and> (sorted (compound (observed_returns returns)) \<longrightarrow>
            calculate_max_drawdown df = Inr (Fin 0))
       \<and> ((\<exists>i<length (compound (observed_returns returns)).
              compound (observed_returns returns) ! i
                = running_peak (compound (observed_returns returns)) i / 2) \<and>
          (\<forall>i<length (compound (observed_returns returns)).
              running_peak (compound (observed_returns returns)) i / 2
                \<le> compound (observed_returns returns) ! i) \<longrightarrow>
          calculate_max_drawdown df = Inr (Fin (1 / 2)))"
proof -
  let ?cs = "compound (observed_returns returns)"
  note s = max_drawdown_spec[of df returns, OF assms]
  from assms(3) have ne: "?cs \<noteq> []" by (simp add: compound_def)
  have a: "sorted ?cs \<longrightarrow> calculate_max_drawdown df = Inr (Fin 0)"
    using s spec_max_drawdown_sorted[of ?cs] ne by simp
  have b: "(\<exists>i<length ?cs. ?cs ! i = running_peak ?cs i / 2) \<and>
          (\<forall>i<length ?cs. running_peak ?cs i / 2 \<le> ?cs ! i) \<longrightarrow>
          calculate_max_drawdown df = Inr (Fin (1 / 2))"
    using s spec_max_drawdown_half[OF compound_pos[OF assms(2)]] by simp
  from s a b show ?thesis by (intro conjI)
qed

theorem max_drawdown_magnitude_witness:
  "calculate_max_drawdown [''returns'' \<mapsto> [NaN, Fin 1, NaN, Fin (- (1 / 2))]]
     = Inr (Fin (1 / 2))
   \<and> calculate_max_drawdown [''returns'' \<mapsto> [NaN, Fin (1 / 10), Fin (1 / 5)]] = Inr (Fin 0)"
proof -
  have c1: "compound (observed_returns [NaN, Fin 1, NaN, Fin (- (1 / 2))]) = [2, 1]"
    by (simp add: compound_Cons) (simp add: compound_def)
  have h1: "\<exists>i<length [2, 1 :: real]. [2, 1 :: real] ! i = running_peak [2, 1] i / 2"
    by (rule exI[of _ 1]) (simp add: running_peak_def)
  have h2: "\<forall>i<length [2, 1 :: real]. running_peak [2, 1] i / 2 \<le> [2, 1 :: real] ! i"
    by (auto simp: less_Suc_eq running_peak_def)
  have c2: "compound (observed_returns [NaN, Fin (1 / 10), Fin (1 / 5)]) = [11 / 10, 33 / 25]"
    by (simp add: compound_Cons) (simp add: compound_def)
  have "[''returns'' \<mapsto> [NaN, Fin 1, NaN, Fin (- (1 / 2))]] ''returns''
          = Some [NaN, Fin 1, NaN, Fin (- (1 / 2))]"
    "admissible_returns [NaN, Fin 1, NaN, Fin (- (1 / 2))]"
    "observed_returns [NaN, Fin 1, NaN, Fin (- (1 / 2))] \<noteq> []" by simp_all
  note t = max_drawdown_magnitude[of "[''returns'' \<mapsto> [NaN, Fin 1, NaN, Fin (- (1 / 2))]]"
      "[NaN, Fin 1, NaN, Fin (- (1 / 2))]", OF this, unfolded c1]
  from t h1 h2
  have a: "calculate_max_drawdown [''returns'' \<mapsto> [NaN, Fin 1, NaN, Fin (- (1 / 2))]]
             = Inr (Fin (1 / 2))"
    by blast
  have "[''returns'' \<mapsto> [NaN, Fin (1 / 10), Fin (1 / 5)]] ''returns''
          = Some [NaN, Fin (1 / 10), Fin (1 / 5)]"
    "admissible_returns [NaN, Fin (1 / 10), Fin (1 / 5)]"
    "observed_returns [NaN, Fin (1 / 10), Fin (1 / 5)] \<noteq> []"
    by simp_all
  note t2 = max_drawdown_magnitude[of "[''returns'' \<mapsto> [NaN, Fin (1 / 10), Fin (1 / 5)]]"
      "[NaN, Fin (1 / 10), Fin (1 / 5)]", OF this, unfolded c2]
  have "sorted [11 / 10, 33 / 25 :: real]" by simp
  with t2
  have b: "calculate_max_drawdown [''returns'' \<mapsto> [NaN, Fin (1 / 10), Fin (1 / 5)]]
             = Inr (Fin 0)"
    by blast
  from a b show ?thesis by simp
qed

text \<open>
  The prices 100, 50 halve from their peak. Their percentage changes are a missing
  return and \<open>-0.5\<close>; the value series is NaN, 0.5, with no earlier peak to fall from,
  and the maximum drawdown is 0, not 0.5.
\<close>

theorem max_drawdown_opening_loss_counterexample:
  "pct_change_plain [Fin 100, Fin 50] = [NaN, Fin (- (1 / 2))]
   \<and> cumulative_returns [NaN, Fin (- (1 / 2))] = [NaN, Fin (1 / 2)]
   \<and> calculate_max_drawdown [''returns'' \<mapsto> [NaN, Fin (- (1 / 2))]] = Inr (Fin 0)"
  by (simp add: calculate_max_drawdown_def pct_change_plain_def cumulative_returns_def
      cumprod_def expanding_max_def nanmax_def fsub_def series_min_def dropna_def)
section \<open>Properties of calculate\_metrics\<close>

lemma run_without_trades_fields:
  "data run_without_trades = Some [''Close'' \<mapsto> [Fin 100, Fin 110, Fin 99],
                     ''Signal'' \<mapsto> [Fin 0, Fin 1, Fin 1],
                     ''returns'' \<mapsto> [Fin 0, Fin (1 / 10), Fin (- (1 / 10))]]"
  "performance_metrics run_without_trades = Map.empty"
  by (simp_all add: run_without_trades_def)

lemma available_lookup:
  "map_of AVAILABLE_METRICS ''win_rate'' =
     Some (Metric ''Win Rate'' ''Percentage of winning trades''
           TRADES (Some True) [''trade_returns''] calculate_win_rate)"
  "map_of AVAILABLE_METRICS ''max_drawdown'' =
     Some (Metric ''Maximum Drawdown'' ''Maximum peak to trough decline''
           RISK (Some False) [''returns''] calculate_max_drawdown)"
  by (simp_all add: AVAILABLE_METRICS_def)

lemma Metric_requires: "Metric n d c h cols f ''requires'' = None"
  by (simp add: Metric_def)

lemma available_requires:
  assumes "map_of AVAILABLE_METRICS name = Some m"
  shows "m ''requires'' = None"
  using assms by (auto simp: AVAILABLE_METRICS_def Metric_requires split: if_splits)

lemma metrics_loop_available:
  "metrics_loop AVAILABLE_METRICS df names pm =
     (case names of
        [] \<Rightarrow> (None, pm)
      | name # rest \<Rightarrow>
          (case map_of AVAILABLE_METRICS name of
             None \<Rightarrow> (Some (UnknownMetric name), pm)
           | Some m \<Rightarrow> (Some (AttributeError ''Metric'' ''requires''), pm)))"
proof (cases names)
  case Nil
  then show ?thesis by simp
next
  case (Cons name rest)
  show ?thesis
  proof (cases "map_of AVAILABLE_METRICS name")
    case None
    with Cons show ?thesis by simp
  next
    case (Some m)
    from available_requires[OF Some] have "getattr ''Metric'' m ''requires''
        = Inl (AttributeError ''Metric'' ''requires'')" by (simp add: getattr_def)
    with Cons Some show ?thesis by simp
  qed
qed

lemma calculate_metrics_available:
  assumes "data self = Some df0" and "df0 ''Signal'' \<noteq> None"
    and "add_returns pct_change df0 = (None, df)"
    and "map_of AVAILABLE_METRICS name \<noteq> None"
  shows "calculate_metrics pct_change AVAILABLE_METRICS self (Some (name # rest)) =
           (Inl (AttributeError ''Metric'' ''requires''), self\<lparr>data := Some df\<rparr>)"
proof -
  from assms(4) obtain m where m: "map_of AVAILABLE_METRICS name = Some m" by blast
  have l: "metrics_loop AVAILABLE_METRICS df (name # rest) (performance_metrics self) =
             (Some (AttributeError ''Metric'' ''requires''), performance_metrics self)"
    unfolding metrics_loop_available by (simp add: m)
  show ?thesis
    using assms(2) by (simp add: calculate_metrics_def assms(1,3) l del: metrics_loop.simps)
qed

lemma calculate_metrics_no_missing_columns:
  "fst (calculate_metrics pct_change AVAILABLE_METRICS self ml) \<noteq> Inl (MissingColumns n cols)"
proof (cases "data self")
  case None
  then show ?thesis by (simp add: calculate_metrics_def)
next
  case (Some df0)
  show ?thesis
  proof (cases "df0 ''Signal'' = None")
    case True
    with Some show ?thesis by (simp add: calculate_metrics_def)
  next
    case False
    obtain e df where ar: "add_returns pct_change df0 = (e, df)"
      by (cases "add_returns pct_change df0")
    show ?thesis
    proof (cases e)
      case (Some err)
      have "err \<noteq> MissingColumns n cols"
        using ar Some
        by (auto simp: add_returns_def split: option.splits if_splits)
      with \<open>data self = Some df0\<close> False ar Some show ?thesis
        by (simp add: calculate_metrics_def)
    next
      case None
      let ?names = "case ml of None \<Rightarrow> map fst AVAILABLE_METRICS | Some l \<Rightarrow> l"
      have "fst (metrics_loop AVAILABLE_METRICS df ?names (performance_metrics self))
              \<noteq> Some (MissingColumns n cols)"
        unfolding metrics_loop_available by (simp split: list.splits option.splits)
      with \<open>data self = Some df0\<close> False ar None show ?thesis
        by (cases "metrics_loop AVAILABLE_METRICS df ?names (performance_metrics self)")
          (auto simp: calculate_metrics_def split: option.splits)
    qed
  qed
qed

text \<open>
  Claim C1. The code does not do what the claim says, for any metric of the registry.
  \<open>calculate_metrics\<close> reads \<open>metric.requires\<close> and \<open>metric.function\<close>; the fields of the
  Metric dataclass are \<open>requires_columns\<close> and \<open>calculation_function\<close>. So on a strategy
  that has run (\<open>df\<close> is its frame after \<open>Returns\<close> and \<open>Strategy_Returns\<close> were added),
  a request whose first metric is in the registry ends in the AttributeError of
  \<open>metric.requires\<close>, whether a required column is missing or not, before any metric is
  computed: \<open>performance_metrics\<close> is left as it was. So does the request for all
  metrics. And no call of \<open>calculate_metrics\<close> reports missing columns.
\<close>

theorem calculate_metrics_attribute_error:
  assumes "data self = Some df0" and "df0 ''Signal'' \<noteq> None"
    and "add_returns pct_change df0 = (None, df)"
  shows "(map_of AVAILABLE_METRICS name \<noteq> None \<longrightarrow>
            calculate_metrics pct_change AVAILABLE_METRICS self (Some (name # rest)) =
              (Inl (AttributeError ''Metric'' ''requires''), self\<lparr>data := Some df\<rparr>))
       \<and> calculate_metrics pct_change AVAILABLE_METRICS self None =
            (Inl (AttributeError ''Metric'' ''requires''), self\<lparr>data := Some df\<rparr>)
       \<and> (\<forall>ml n cols. fst (calculate_metrics pct_change AVAILABLE_METRICS self ml)
            \<noteq> Inl (MissingColumns n cols))"
proof (intro conjI impI allI)
  assume "map_of AVAILABLE_METRICS name \<noteq> None"
  from calculate_metrics_available[OF assms this]
  show "calculate_metrics pct_change AVAILABLE_METRICS self (Some (name # rest)) =
          (Inl (AttributeError ''Metric'' ''requires''), self\<lparr>data := Some df\<rparr>)" .
next
  have l: "metrics_loop AVAILABLE_METRICS df (map fst AVAILABLE_METRICS)
             (performance_metrics self) =
             (Some (AttributeError ''Metric'' ''requires''), performance_metrics self)"
    unfolding metrics_loop_available by (simp add: AVAILABLE_METRICS_def)
  show "calculate_metrics pct_change AVAILABLE_METRICS self None =
          (Inl (AttributeError ''Metric'' ''requires''), self\<lparr>data := Some df\<rparr>)"
    using assms(2) by (simp add: calculate_metrics_def assms(1,3) l del: metrics_loop.simps)
next
  fix ml n cols
  show "fst (calculate_metrics pct_change AVAILABLE_METRICS self ml)
          \<noteq> Inl (MissingColumns n cols)"
    by (rule calculate_metrics_no_missing_columns)
qed

text \<open>
  A record with \<open>returns\<close> and without \<open>trade_returns\<close>, and the request \<open>win_rate\<close>,
  \<open>max_drawdown\<close>: the call ends in the AttributeError, not in an error that lists
  \<open>trade_returns\<close>, and nothing is computed. The request \<open>max_drawdown\<close> alone, whose
  column is present, ends in the same error.
\<close>

theorem calculate_metrics_attribute_error_witness:
  "fst (calculate_metrics pct_change_plain AVAILABLE_METRICS run_without_trades
          (Some [''win_rate'', ''max_drawdown''])) = Inl (AttributeError ''Metric'' ''requires'')
   \<and> performance_metrics (snd (calculate_metrics pct_change_plain AVAILABLE_METRICS
          run_without_trades (Some [''win_rate'', ''max_drawdown'']))) = Map.empty
   \<and> fst (calculate_metrics pct_change_plain AVAILABLE_METRICS run_without_trades
          (Some [''max_drawdown''])) = Inl (AttributeError ''Metric'' ''requires'')"
proof -
  let ?frame = "[''Close'' \<mapsto> [Fin 100, Fin 110, Fin 99],
               ''Signal'' \<mapsto> [Fin 0, Fin 1, Fin 1],
               ''returns'' \<mapsto> [Fin 0, Fin (1 / 10), Fin (- (1 / 10))]]"
  let ?augmented = "snd (add_returns pct_change_plain ?frame)"
  have d: "data run_without_trades = Some ?frame" by (simp add: run_without_trades_fields)
  have sg: "?frame ''Signal'' \<noteq> None" by simp
  have ar: "add_returns pct_change_plain ?frame = (None, ?augmented)"
    by (simp add: add_returns_def)
  note t = calculate_metrics_attribute_error[OF d sg ar]
  have w: "map_of AVAILABLE_METRICS ''win_rate'' \<noteq> None"
    and m: "map_of AVAILABLE_METRICS ''max_drawdown'' \<noteq> None"
    by (simp_all add: available_lookup)
  from t[of "''win_rate''" "[''max_drawdown'']"] w
  have a: "calculate_metrics pct_change_plain AVAILABLE_METRICS run_without_trades
             (Some [''win_rate'', ''max_drawdown'']) =
           (Inl (AttributeError ''Metric'' ''requires''),
            run_without_trades\<lparr>data := Some ?augmented\<rparr>)" by blast
  from t[of "''max_drawdown''" "[]"] m
  have b: "calculate_metrics pct_change_plain AVAILABLE_METRICS run_without_trades
             (Some [''max_drawdown'']) =
           (Inl (AttributeError ''Metric'' ''requires''),
            run_without_trades\<lparr>data := Some ?augmented\<rparr>)" by blast
  show ?thesis unfolding a b by (simp add: run_without_trades_fields)
qed
section \<open>Properties of the optimizers\<close>

lemma failing_class_fields:
  "class_get_optimization_bounds failing_class s = Inr [(''window'', ''int'', [PInt 5, PInt 50])]"
  "class_set_parameters failing_class s p = None"
  "class_run_strategy failing_class s p = Inl (StrategyError ''no data for symbol'')"
  by (simp_all add: failing_class_def)

lemma failing_trial_params:
  "create_trial_params drawdown_optimizer (first_sampler history) = Inr [(''window'', PInt 5)]"
  "create_trial_params sharpe_optimizer (first_sampler history) = Inr [(''window'', PInt 5)]"
  "create_trial_params sharpe_drawdown_optimizer (first_sampler history) = Inr [(''window'', PInt 5)]"
  by (simp_all add: create_trial_params_def drawdown_optimizer_def sharpe_optimizer_def
      sharpe_drawdown_optimizer_def StrategyOptimizer.extend_def
      failing_class_fields first_sampler_def)

lemma objective_failed_run:
  assumes "create_trial_params self suggest = Inr params"
    and "class_set_parameters (strategy_class self) (optimizer_symbol self) params = None"
    and "class_run_strategy (strategy_class self) (optimizer_symbol self) params = Inl e"
  shows "objective pct_change registry self suggest =
           Inr \<lparr> trial_params = params, trial_user_attrs = [], trial_values = [Some NInf] \<rparr>"
  by (simp add: objective_def assms)

lemma objective_multi_failed_run:
  assumes "create_trial_params self suggest = Inr params"
    and "class_set_parameters (strategy_class self) (optimizer_symbol self) params = None"
    and "class_run_strategy (strategy_class self) (optimizer_symbol self) params = Inl e"
  shows "objective_multi pct_change registry self suggest =
           Inr \<lparr> trial_params = params, trial_user_attrs = [],
                 trial_values = replicate (length (objectives self)) (Some NInf) \<rparr>"
  by (simp add: objective_multi_def assms)

lemma drawdown_objective:
  "objective pct_change registry drawdown_optimizer (first_sampler history) =
     Inr \<lparr> trial_params = [(''window'', PInt 5)], trial_user_attrs = [],
           trial_values = [Some NInf] \<rparr>"
  by (rule objective_failed_run[OF failing_trial_params(1)])
     (simp_all add: drawdown_optimizer_def failing_class_fields)

lemma sharpe_objective:
  "objective pct_change registry sharpe_optimizer (first_sampler history) =
     Inr \<lparr> trial_params = [(''window'', PInt 5)], trial_user_attrs = [],
           trial_values = [Some NInf] \<rparr>"
  by (rule objective_failed_run[OF failing_trial_params(2)])
     (simp_all add: sharpe_optimizer_def failing_class_fields)

lemma sharpe_drawdown_objective:
  "objective_multi pct_change registry sharpe_drawdown_optimizer (first_sampler history) =
     Inr \<lparr> trial_params = [(''window'', PInt 5)], trial_user_attrs = [],
           trial_values = [Some NInf, Some NInf] \<rparr>"
  using objective_multi_failed_run[OF failing_trial_params(3), of _ pct_change registry]
  by (simp add: sharpe_drawdown_optimizer_def sharpe_optimizer_def failing_class_fields
      StrategyOptimizer.extend_def)

lemma sharpe_drawdown_objectives:
  "objectives sharpe_drawdown_optimizer = [''sharpe_ratio'', ''max_drawdown'']"
  by (simp add: sharpe_drawdown_optimizer_def StrategyOptimizer.extend_def)

text \<open>
  Claim C2, at the input where the code departs from it. A strategy whose run raises is
  scored negative infinity whatever the direction: the exception does not leave the
  objective and the trials go on. Under the direction \<open>Minimize\<close>, and for the minimized
  objective \<open>max_drawdown\<close> of a multi-objective study, negative infinity is the best
  value a trial can have, where the claim has positive infinity.
\<close>

theorem failed_run_scores_minus_infinity_when_minimizing:
  "optimize pct_change_plain AVAILABLE_METRICS first_sampler drawdown_optimizer 2 Minimize =
     Inr \<lparr> directions = [Minimize],
           trials = [\<lparr> trial_params = [(''window'', PInt 5)], trial_user_attrs = [],
                        trial_values = [Some NInf] \<rparr>,
                     \<lparr> trial_params = [(''window'', PInt 5)], trial_user_attrs = [],
                        trial_values = [Some NInf] \<rparr>] \<rparr>
   \<and> optimize_multi pct_change_plain AVAILABLE_METRICS first_sampler
       sharpe_drawdown_optimizer 1 =
     Inr \<lparr> directions = [Maximize, Minimize],
           trials = [\<lparr> trial_params = [(''window'', PInt 5)], trial_user_attrs = [],
                        trial_values = [Some NInf, Some NInf] \<rparr>] \<rparr>"
  by (simp add: optimize_def optimize_multi_def numeral_2_eq_2 drawdown_objective
      sharpe_drawdown_objective sharpe_drawdown_objectives OPTIMIZATION_OBJECTIVES_def)

lemma study_optimize_total:
  assumes "\<forall>history. \<exists>t. f history = Inr t"
  shows "\<exists>st'. study_optimize f n st = Inr st' \<and> directions st' = directions st \<and>
           length (trials st') = length (trials st) + n"
proof (induction n arbitrary: st)
  case 0
  then show ?case by simp
next
  case (Suc n)
  from assms obtain t where t: "f (trials st) = Inr t" by blast
  from Suc.IH[of "st\<lparr>trials := trials st @ [t]\<rparr>"] obtain st' where
    "study_optimize f n (st\<lparr>trials := trials st @ [t]\<rparr>) = Inr st'"
    "directions st' = directions st" "length (trials st') = length (trials st) + Suc n"
    by auto
  with t show ?case by simp
qed

lemma generation_step_too_many_elites:
  assumes "population self \<noteq> []"
    and "argsort_ok rt (map (fitness_at h (objects self)) (population self))"
    and "length (population self) < nat (elite_size self)"
  shows "generation_step rt h self g = Inl (IndexError ''index out of bounds'')"
proof -
  let ?pop = "population self"
  let ?scores = "map (fitness_at h (objects self)) ?pop"
  let ?si = "rev (np_argsort rt ?scores)"
  from assms(1) have "?scores \<noteq> []" by simp
  then obtain x rest where "?scores = x # rest" by (cases ?scores) auto
  then have bi: "np_argmax ?scores = Inr (argmax_loop rest 1 0 x)"
    by (simp add: np_argmax_def)
  from assms(2) have len: "length ?si = length ?pop"
    and rng: "\<forall>i\<in>set ?si. i < length ?pop"
    by (auto simp: argsort_ok_def)
  from assms(3) len have "\<exists>i\<in>set [0..<nat (elite_size self)]. length ?si \<le> i"
    by (intro bexI[of _ "length ?pop"]) simp_all
  from elitism_loop_err[OF this rng, of "[]"]
  have el: "elitism_loop ?pop ?si [0..<nat (elite_size self)] [] =
              Inl (IndexError ''index out of bounds'')" .
  show ?thesis unfolding generation_step_def Let_def bi sum.case el by simp
qed

text \<open>
  Claim C3, as the code has it. The constructor of StrategyOptimizer rejects exactly the
  objective names that are not in the catalogue; the direction is no argument of it.
  \<open>optimize\<close> hands the direction it is given to the study and runs the trials: if every
  objective call returns, the study holds \<open>n\<close> trials under that direction, whatever the
  polarity of the objective. \<open>GeneticStrategy.__init__\<close> stores \<open>population_size\<close> and
  \<open>elite_size\<close> as given. An elite size larger than the population shows only in
  \<open>evolve\<close>, as the IndexError of the elitism loop of the first generation.
\<close>

theorem configuration_is_not_validated:
  "((\<exists>self. StrategyOptimizer_init cls symb name extra = Inr self)
      = (map_of OPTIMIZATION_OBJECTIVES name \<noteq> None))
   \<and> ((\<forall>history. \<exists>t. objective pct_change registry self (sampler history) = Inr t) \<longrightarrow>
        (\<exists>st. optimize pct_change registry sampler self n d = Inr st \<and>
              directions st = [d] \<and> length (trials st) = n))
   \<and> population_size (GeneticStrategy_init symb p gens m c e :: 'a genetic_strategy) = p
   \<and> elite_size (GeneticStrategy_init symb p gens m c e :: 'a genetic_strategy) = e
   \<and> (population gs \<noteq> [] \<and> argsort_ok rt (map (fitness_at h (objects gs)) (population gs)) \<and>
       length (population gs) < nat (elite_size gs) \<longrightarrow>
        generation_step rt h gs g = Inl (IndexError ''index out of bounds''))"
proof (intro conjI impI)
  show "(\<exists>self. StrategyOptimizer_init cls symb name extra = Inr self)
          = (map_of OPTIMIZATION_OBJECTIVES name \<noteq> None)"
    by (cases "map_of OPTIMIZATION_OBJECTIVES name") (simp_all add: StrategyOptimizer_init_def)
next
  assume "\<forall>history. \<exists>t. objective pct_change registry self (sampler history) = Inr t"
  from study_optimize_total[of "\<lambda>history. objective pct_change registry self (sampler history)",
      OF this, of n "\<lparr> directions = [d], trials = [] \<rparr>"]
  show "\<exists>st. optimize pct_change registry sampler self n d = Inr st \<and>
              directions st = [d] \<and> length (trials st) = n"
    by (simp add: optimize_def)
next
  show "population_size (GeneticStrategy_init symb p gens m c e :: 'a genetic_strategy) = p"
    by (simp add: GeneticStrategy_init_def)
next
  show "elite_size (GeneticStrategy_init symb p gens m c e :: 'a genetic_strategy) = e"
    by (simp add: GeneticStrategy_init_def)
next
  assume "population gs \<noteq> [] \<and> argsort_ok rt (map (fitness_at h (objects gs)) (population gs)) \<and>
       length (population gs) < nat (elite_size gs)"
  then show "generation_step rt h gs g = Inl (IndexError ''index out of bounds'')"
    using generation_step_too_many_elites[of gs rt h g] by blast
qed

theorem configuration_is_not_validated_witness:
  "(\<exists>st. optimize pct_change_plain AVAILABLE_METRICS first_sampler sharpe_optimizer 2 Minimize
           = Inr st \<and> directions st = [Minimize] \<and> length (trials st) = 2)
   \<and> generation_step counter_runtime parabola_hooks (parabola_strategy\<lparr>elite_size := 5\<rparr>) 0
       = Inl (IndexError ''index out of bounds'')"
proof -
  note t = configuration_is_not_validated[where pct_change = pct_change_plain
      and registry = AVAILABLE_METRICS and self = sharpe_optimizer and sampler = first_sampler
      and n = 2 and d = Minimize and gs = "parabola_strategy\<lparr>elite_size := 5\<rparr>"
      and rt = counter_runtime and h = parabola_hooks and g = 0]
  have a: "\<forall>history. \<exists>t. objective pct_change_plain AVAILABLE_METRICS sharpe_optimizer
             (first_sampler history) = Inr t"
    by (simp add: sharpe_objective)
  have b: "population (parabola_strategy\<lparr>elite_size := 5\<rparr>) \<noteq> [] \<and>
           argsort_ok counter_runtime
             (map (fitness_at parabola_hooks (objects (parabola_strategy\<lparr>elite_size := 5\<rparr>)))
                (population (parabola_strategy\<lparr>elite_size := 5\<rparr>))) \<and>
           length (population (parabola_strategy\<lparr>elite_size := 5\<rparr>))
             < nat (elite_size (parabola_strategy\<lparr>elite_size := 5\<rparr>))"
    by (simp add: stable_argsort_ok parabola_fields)
  from t a b show ?thesis by blast
qed

text \<open>
  The objective \<open>sharpe_ratio\<close> (higher is better) optimized under \<open>Minimize\<close>: the
  optimizer is built and two trials are evaluated. A genetic strategy with an elite size of
  5 and a population size of 3 is built as well.
\<close>

theorem configuration_accepted_counterexample:
  "StrategyOptimizer_init failing_class ''TEST'' ''sharpe_ratio'' None = Inr sharpe_optimizer
   \<and> higher_is_better (objective_function sharpe_optimizer) = True
   \<and> optimize pct_change_plain AVAILABLE_METRICS first_sampler sharpe_optimizer 2 Minimize =
       Inr \<lparr> directions = [Minimize],
             trials = [\<lparr> trial_params = [(''window'', PInt 5)], trial_user_attrs = [],
                          trial_values = [Some NInf] \<rparr>,
                       \<lparr> trial_params = [(''window'', PInt 5)], trial_user_attrs = [],
                          trial_values = [Some NInf] \<rparr>] \<rparr>
   \<and> (GeneticStrategy_init ''TEST'' 3 1 (1 / 10) (7 / 10) 5 :: real genetic_strategy) =
       \<lparr> symbol = ''TEST'', population_size = 3, generations = 1, mutation_rate = 1 / 10,
         crossover_rate = 7 / 10, elite_size = 5, best_individual = None, population = [],
         fitness_history = [], objects = [] \<rparr>"
proof -
  have a: "StrategyOptimizer_init failing_class ''TEST'' ''sharpe_ratio'' None = Inr sharpe_optimizer"
    by (simp add: StrategyOptimizer_init_def OPTIMIZATION_OBJECTIVES_def sharpe_optimizer_def)
  have b: "higher_is_better (objective_function sharpe_optimizer) = True"
    by (simp add: sharpe_optimizer_def)
  have c: "optimize pct_change_plain AVAILABLE_METRICS first_sampler sharpe_optimizer 2 Minimize =
       Inr \<lparr> directions = [Minimize],
             trials = [\<lparr> trial_params = [(''window'', PInt 5)], trial_user_attrs = [],
                          trial_values = [Some NInf] \<rparr>,
                       \<lparr> trial_params = [(''window'', PInt 5)], trial_user_attrs = [],
                          trial_values = [Some NInf] \<rparr>] \<rparr>"
    by (simp add: optimize_def numeral_2_eq_2 sharpe_objective)
  have d: "(GeneticStrategy_init ''TEST'' 3 1 (1 / 10) (7 / 10) 5 :: real genetic_strategy) =
       \<lparr> symbol = ''TEST'', population_size = 3, generations = 1, mutation_rate = 1 / 10,
         crossover_rate = 7 / 10, elite_size = 5, best_individual = None, population = [],
         fitness_history = [], objects = [] \<rparr>"
    by (simp add: GeneticStrategy_init_def)
  from a b c d show ?thesis by blast
qed

end
